theory Spec2Isabelle
  imports Complex_Main "HOL-Library.Multiset"
begin

section \<open>The JavaScript values the comparer works on\<close>

text \<open>
  \<^verbatim>\<open>src/data-comparer.js\<close> receives the rows that \<^verbatim>\<open>csv-parse\<close> produces with
  \<^verbatim>\<open>columns: true\<close> (objects whose property values are strings, see
  \<^verbatim>\<open>uscreen-scraper.js\<close>, \<^verbatim>\<open>parseCSV\<close>) and the flat records that
  \<^verbatim>\<open>salesforce-client.js\<close> builds from a query result (text fields, or \<^verbatim>\<open>null\<close>).
  A property value is therefore \<^verbatim>\<open>undefined\<close>, \<^verbatim>\<open>null\<close> or a string.
  Strings are lists of \<^typ>\<open>char\<close>.
\<close>

datatype jsval = Undefined | Null | Str string

text \<open>A CSV row: column name to cell text; reading a missing column gives \<^verbatim>\<open>undefined\<close>.\<close>

type_synonym row = "string \<rightharpoonup> string"

definition get :: "row \<Rightarrow> string \<Rightarrow> jsval" where
  "get r k = (case r k of None \<Rightarrow> Undefined | Some s \<Rightarrow> Str s)"

text \<open>Truthiness: \<^verbatim>\<open>undefined\<close>, \<^verbatim>\<open>null\<close> and the empty string are falsy.\<close>

fun truthy :: "jsval \<Rightarrow> bool" where
  "truthy Undefined = False"
| "truthy Null = False"
| "truthy (Str s) = (s \<noteq> [])"

text \<open>\<^verbatim>\<open>a || b\<close>: the left operand when it is truthy, the right operand as it is otherwise.\<close>

definition js_or :: "jsval \<Rightarrow> jsval \<Rightarrow> jsval" where
  "js_or a b = (if truthy a then a else b)"

text \<open>\<^verbatim>\<open>String(v)\<close>.\<close>

fun String :: "jsval \<Rightarrow> string" where
  "String Undefined = ''undefined''"
| "String Null = ''null''"
| "String (Str s) = s"

text \<open>
  \<^verbatim>\<open>(v || '')\<close> for a value that is a string or absent: always a string, so the method
  calls the source makes on it (\<^verbatim>\<open>toLowerCase\<close>, \<^verbatim>\<open>includes\<close>) cannot throw.
\<close>

definition or_empty :: "jsval \<Rightarrow> string" where
  "or_empty v = (case js_or v (Str []) of Str s \<Rightarrow> s | _ \<Rightarrow> [])"

subsection \<open>\<^verbatim>\<open>String.prototype.toLowerCase\<close> and \<^verbatim>\<open>includes\<close>\<close>

text \<open>Lower-casing of the ASCII letters; every other character is left as it is.\<close>

definition lower_char :: "char \<Rightarrow> char" where
  "lower_char c =
     (let n = (of_char c :: nat) in if 65 \<le> n \<and> n \<le> 90 then char_of (n + 32) else c)"

definition toLowerCase :: "string \<Rightarrow> string" where
  "toLowerCase s = map lower_char s"

text \<open>\<^verbatim>\<open>s.includes(t)\<close>: \<open>t\<close> occurs in \<open>s\<close> as a contiguous substring.\<close>

fun starts_with :: "string \<Rightarrow> string \<Rightarrow> bool" where
  "starts_with s [] = True"
| "starts_with [] (c # t) = False"
| "starts_with (d # s) (c # t) = (d = c \<and> starts_with s t)"

fun includes_str :: "string \<Rightarrow> string \<Rightarrow> bool" where
  "includes_str [] t = (t = [])"
| "includes_str (d # s) t = (starts_with (d # s) t \<or> includes_str s t)"

subsection \<open>Numbers and \<^verbatim>\<open>parseFloat\<close>\<close>

text \<open>
  A Number is \<^verbatim>\<open>NaN\<close>, an infinity, or finite. \<open>Fin q\<close> stands for the finite Number
  that the rational \<open>q\<close> rounds to; the comparer only compares Numbers with \<open>0\<close>, and
  rounding keeps the sign of every value that neither underflows to zero nor overflows
  (both are decided in \<open>to_number\<close> below).
\<close>

datatype jsnum = NaN | Fin rat | PosInfinity | NegInfinity

text \<open>\<^verbatim>\<open>a <= b\<close> and \<^verbatim>\<open>a > b\<close> on Numbers: false as soon as one side is \<^verbatim>\<open>NaN\<close>.\<close>

fun num_le :: "jsnum \<Rightarrow> jsnum \<Rightarrow> bool" where
  "num_le NaN b = False"
| "num_le a NaN = False"
| "num_le NegInfinity b = True"
| "num_le a PosInfinity = True"
| "num_le PosInfinity b = False"
| "num_le a NegInfinity = False"
| "num_le (Fin x) (Fin y) = (x \<le> y)"

fun num_gt :: "jsnum \<Rightarrow> jsnum \<Rightarrow> bool" where
  "num_gt NaN b = False"
| "num_gt a NaN = False"
| "num_gt a b = (\<not> num_le a b)"

text \<open>
  Rounding a rational to a Number: magnitudes up to \<open>2\<^sup>-\<^sup>1\<^sup>0\<^sup>7\<^sup>5\<close> round to zero,
  magnitudes from \<open>2\<^sup>1\<^sup>0\<^sup>2\<^sup>4 - 2\<^sup>9\<^sup>7\<^sup>0\<close> on round to an infinity.
\<close>

definition to_number :: "rat \<Rightarrow> jsnum" where
  "to_number q =
     (if \<bar>q\<bar> * 2 ^ 1075 \<le> 1 then Fin 0
      else if 2 ^ 1024 - 2 ^ 970 \<le> \<bar>q\<bar> then (if 0 < q then PosInfinity else NegInfinity)
      else Fin q)"

definition is_digit :: "char \<Rightarrow> bool" where
  "is_digit c = (let n = (of_char c :: nat) in 48 \<le> n \<and> n \<le> 57)"

definition digit_val :: "char \<Rightarrow> nat" where
  "digit_val c = of_char c - 48"

definition is_space :: "char \<Rightarrow> bool" where
  "is_space c = (let n = (of_char c :: nat) in n = 32 \<or> (9 \<le> n \<and> n \<le> 13))"

text \<open>The value of a run of decimal digits, most significant first.\<close>

definition digits_val :: "string \<Rightarrow> nat" where
  "digits_val ds = foldl (\<lambda>a c. 10 * a + digit_val c) 0 ds"

text \<open>
  The exponent part \<^verbatim>\<open>e[+-]ddd\<close> at the head of the rest of the text; it counts only when
  at least one digit follows, otherwise the literal ends before the \<^verbatim>\<open>e\<close>.
\<close>

definition exponent_part :: "string \<Rightarrow> int" where
  "exponent_part s =
     (case s of
        c # r \<Rightarrow>
          if c = CHR ''e'' \<or> c = CHR ''E'' then
            (case r of
               d # r' \<Rightarrow>
                 if d = CHR ''-'' then - int (digits_val (takeWhile is_digit r'))
                 else if d = CHR ''+'' then int (digits_val (takeWhile is_digit r'))
                 else int (digits_val (takeWhile is_digit r))
             | [] \<Rightarrow> 0)
          else 0
      | [] \<Rightarrow> 0)"

definition scale10 :: "rat \<Rightarrow> int \<Rightarrow> rat" where
  "scale10 q e = (if 0 \<le> e then q * 10 ^ nat e else q / 10 ^ nat (- e))"

text \<open>
  An unsigned \<^verbatim>\<open>StrDecimalLiteral\<close> at the head of the text: \<^verbatim>\<open>Infinity\<close>, or digits
  with an optional fraction and exponent; \<^verbatim>\<open>NaN\<close> when there is no digit.
\<close>

definition unsigned_literal :: "bool \<Rightarrow> string \<Rightarrow> jsnum" where
  "unsigned_literal neg s =
     (if starts_with s ''Infinity'' then (if neg then NegInfinity else PosInfinity)
      else
        let ip = takeWhile is_digit s;
            r1 = dropWhile is_digit s;
            fp = (case r1 of c # r \<Rightarrow> if c = CHR ''.'' then takeWhile is_digit r else [] | [] \<Rightarrow> []);
            r2 = (case r1 of c # r \<Rightarrow> if c = CHR ''.'' then dropWhile is_digit r else r1 | [] \<Rightarrow> [])
        in if ip = [] \<and> fp = [] then NaN
           else
             let m = of_nat (digits_val (ip @ fp)) :: rat;
                 q = scale10 m (exponent_part r2 - int (length fp))
             in to_number (if neg then - q else q))"

text \<open>
  \<^verbatim>\<open>parseFloat(s)\<close> on a string: leading white space (the ASCII white space characters;
  \<^verbatim>\<open>csv-parse\<close> is called with \<^verbatim>\<open>trim: true\<close>), an optional sign, the literal. Text
  after the literal is ignored.
\<close>

definition parseFloat :: "string \<Rightarrow> jsnum" where
  "parseFloat s =
     (case dropWhile is_space s of
        [] \<Rightarrow> NaN
      | c # r \<Rightarrow>
          if c = CHR ''-'' then unsigned_literal True r
          else if c = CHR ''+'' then unsigned_literal False r
          else unsigned_literal False (c # r))"

text \<open>
  \<^verbatim>\<open>parseFloat(v || 0)\<close>: a falsy \<open>v\<close> gives the number \<open>0\<close>, whose text \<^verbatim>\<open>"0"\<close>
  parses to \<open>0\<close>; a truthy \<open>v\<close> is a non-empty string here.
\<close>

definition parseFloat_or0 :: "jsval \<Rightarrow> jsnum" where
  "parseFloat_or0 v = (if truthy v then parseFloat (String v) else Fin 0)"

subsection \<open>Dates\<close>

text \<open>
  A \<^verbatim>\<open>Date\<close> object holds a time value, milliseconds since 1970-01-01T00:00:00Z, or
  \<^verbatim>\<open>NaN\<close> (an Invalid Date). Every \<^verbatim>\<open>Date\<close> object is truthy.
\<close>

datatype jsdate = Invalid_Date | Time int

text \<open>Days from 1970-01-01 to a date of the proleptic Gregorian calendar.\<close>

definition days_from_civil :: "int \<Rightarrow> int \<Rightarrow> int \<Rightarrow> int" where
  "days_from_civil y m d =
     (let y' = (if m \<le> 2 then y - 1 else y);
          era = y' div 400;
          yoe = y' - era * 400;
          doy = (153 * (if 2 < m then m - 3 else m + 9) + 2) div 5 + d - 1;
          doe = yoe * 365 + yoe div 4 - yoe div 100 + doy
      in era * 146097 + doe - 719468)"

definition leap_year :: "int \<Rightarrow> bool" where
  "leap_year y = (y mod 4 = 0 \<and> (y mod 100 \<noteq> 0 \<or> y mod 400 = 0))"

definition days_in_month :: "int \<Rightarrow> int \<Rightarrow> int" where
  "days_in_month y m =
     (if m = 2 then (if leap_year y then 29 else 28)
      else if m = 4 \<or> m = 6 \<or> m = 9 \<or> m = 11 then 30 else 31)"

text \<open>
  \<^verbatim>\<open>new Date(s)\<close> on a string, for the date-only form \<^verbatim>\<open>YYYY-MM-DD\<close> of the
  ECMAScript date-time format (midnight UTC); a month or day out of range gives an
  Invalid Date. Any other text is an Invalid Date in this model; what an engine does with
  other formats is implementation-defined, and no general theorem below looks inside
  this function.
\<close>

definition Date_parse :: "string \<Rightarrow> jsdate" where
  "Date_parse s =
     (if length s = 10 \<and> s ! 4 = CHR ''-'' \<and> s ! 7 = CHR ''-''
         \<and> list_all is_digit (take 4 s) \<and> list_all is_digit (take 2 (drop 5 s))
         \<and> list_all is_digit (drop 8 s)
      then
        let y = int (digits_val (take 4 s));
            m = int (digits_val (take 2 (drop 5 s)));
            d = int (digits_val (drop 8 s))
        in if 1 \<le> m \<and> m \<le> 12 \<and> 1 \<le> d \<and> d \<le> days_in_month y m
           then Time (days_from_civil y m d * 86400000) else Invalid_Date
      else Invalid_Date)"

text \<open>
  \<^verbatim>\<open>new Date(v)\<close>: a string is parsed, \<^verbatim>\<open>null\<close> converts to the number \<open>0\<close>,
  \<^verbatim>\<open>undefined\<close> to \<^verbatim>\<open>NaN\<close>.
\<close>

fun new_Date :: "jsval \<Rightarrow> jsdate" where
  "new_Date (Str s) = Date_parse s"
| "new_Date Null = Time 0"
| "new_Date Undefined = Invalid_Date"

text \<open>\<^verbatim>\<open>new Date(v || 0)\<close>: a falsy \<open>v\<close> gives \<^verbatim>\<open>new Date(0)\<close>, the epoch.\<close>

definition Date_or0 :: "jsval \<Rightarrow> jsdate" where
  "Date_or0 v = (if truthy v then new_Date v else Time 0)"

text \<open>\<^verbatim>\<open>a > b\<close> on two \<^verbatim>\<open>Date\<close> objects compares the time values; \<^verbatim>\<open>NaN\<close> makes it false.\<close>

fun date_gt :: "jsdate \<Rightarrow> jsdate \<Rightarrow> bool" where
  "date_gt (Time a) (Time b) = (b < a)"
| "date_gt a b = False"

text \<open>\<^verbatim>\<open>a - b\<close> on two \<^verbatim>\<open>Date\<close> objects: a Number, \<^verbatim>\<open>NaN\<close> (here \<open>None\<close>) when one is invalid.\<close>

fun date_minus :: "jsdate \<Rightarrow> jsdate \<Rightarrow> int option" where
  "date_minus (Time a) (Time b) = Some (a - b)"
| "date_minus a b = None"

section \<open>The Salesforce records and the comparer\<close>

text \<open>
  The fields of a flat Salesforce record (\<^verbatim>\<open>salesforce-client.js\<close>, \<^verbatim>\<open>getProgramRoles\<close>)
  that the comparer reads, and its id. \<^verbatim>\<open>contactEmail\<close> is built as
  \<^verbatim>\<open>r.Contact__r?.Email || ''\<close>, a string.
\<close>

record sfRecord =
  sfId :: string
  contactEmail :: string
  uscreenMemberId :: jsval
  uscreenSubscriptionStatus :: jsval
  uscreenLastPaymentDate :: jsval

text \<open>The object has two maps, created empty by the constructor and never reset.\<close>

record DataComparer =
  sfByUscreenId :: "string \<rightharpoonup> sfRecord"
  sfByEmail :: "string \<rightharpoonup> sfRecord"

definition new_DataComparer :: DataComparer where
  "new_DataComparer = \<lparr>sfByUscreenId = Map.empty, sfByEmail = Map.empty\<rparr>"

text \<open>One round of the loop \<^verbatim>\<open>for (const sf of sfData)\<close> (lines 18 to 25).\<close>

definition index_sf :: "DataComparer \<Rightarrow> sfRecord \<Rightarrow> DataComparer" where
  "index_sf this sf =
     (let this1 =
            (if truthy (uscreenMemberId sf)
             then this\<lparr>sfByUscreenId := (sfByUscreenId this)(String (uscreenMemberId sf) \<mapsto> sf)\<rparr>
             else this)
      in if contactEmail sf \<noteq> []
         then this1\<lparr>sfByEmail := (sfByEmail this1)(toLowerCase (contactEmail sf) \<mapsto> sf)\<rparr>
         else this1)"

definition build_lookup :: "DataComparer \<Rightarrow> sfRecord list \<Rightarrow> DataComparer" where
  "build_lookup this sfData = foldl index_sf this sfData"

subsection \<open>\<^verbatim>\<open>findLatestPayment\<close>\<close>

text \<open>The object \<^verbatim>\<open>findLatestPayment\<close> returns.\<close>

record latestPayment =
  email :: jsval
  amount :: jsnum
  chargeDate :: jsval
  subscription :: jsval
  paymentId :: jsval

definition payment_amount :: "row \<Rightarrow> jsnum" where
  "payment_amount p =
     parseFloat_or0 (js_or (js_or (get p ''Charge Amount'') (get p ''charge_amount'')) (get p ''amount''))"

text \<open>The callback of \<^verbatim>\<open>payments.filter\<close> (lines 113 to 122).\<close>

definition user_payment :: "string \<Rightarrow> jsval \<Rightarrow> row \<Rightarrow> bool" where
  "user_payment email' uscreenId' p =
     (let pEmail = toLowerCase (or_empty (js_or (get p ''email'') (get p ''Email'')));
          pUserId = js_or (js_or (get p ''User ID'') (get p ''user_id'')) (Str []);
          amount' = payment_amount p
      in if num_le amount' (Fin 0) then False
         else pEmail = email' \<or> String pUserId = String uscreenId')"

text \<open>The date each side of the sort callback builds (lines 128 and 129).\<close>

definition sort_date :: "row \<Rightarrow> jsdate" where
  "sort_date a = Date_or0 (js_or (get a ''Charge Date'') (get a ''charge_date''))"

text \<open>The sort callback: \<^verbatim>\<open>dateB - dateA\<close>, with \<open>None\<close> for \<^verbatim>\<open>NaN\<close>.\<close>

definition date_desc :: "row \<Rightarrow> row \<Rightarrow> int option" where
  "date_desc a b = date_minus (sort_date b) (sort_date a)"

text \<open>
  \<^verbatim>\<open>Array.prototype.sort(comparefn)\<close>. The language applies the callback through
  \<^verbatim>\<open>SortCompare\<close>, which reads a \<^verbatim>\<open>NaN\<close> result as \<open>0\<close>, and requires the sort to be
  stable. For a callback that is a consistent comparator this fixes the result, and
  the stable insertion sort below computes it. For an inconsistent callback the order is
  implementation-defined; the insertion sort is then one admissible outcome.
\<close>

definition sort_compare :: "('a \<Rightarrow> 'a \<Rightarrow> int option) \<Rightarrow> 'a \<Rightarrow> 'a \<Rightarrow> int" where
  "sort_compare f x y = (case f x y of None \<Rightarrow> 0 | Some v \<Rightarrow> v)"

fun insert_sorted :: "('a \<Rightarrow> 'a \<Rightarrow> int option) \<Rightarrow> 'a \<Rightarrow> 'a list \<Rightarrow> 'a list" where
  "insert_sorted f x [] = [x]"
| "insert_sorted f x (y # ys) =
     (if sort_compare f x y \<le> 0 then x # y # ys else y # insert_sorted f x ys)"

fun array_sort :: "('a \<Rightarrow> 'a \<Rightarrow> int option) \<Rightarrow> 'a list \<Rightarrow> 'a list" where
  "array_sort f [] = []"
| "array_sort f (x # xs) = insert_sorted f x (array_sort f xs)"

text \<open>The object literal built from \<^verbatim>\<open>latest\<close> (lines 134 to 140).\<close>

definition latest_of :: "row \<Rightarrow> latestPayment" where
  "latest_of latest =
     \<lparr>email = js_or (get latest ''email'') (get latest ''Email''),
      amount = payment_amount latest,
      chargeDate = js_or (get latest ''Charge Date'') (get latest ''charge_date''),
      subscription = js_or (get latest ''Subscription'') (get latest ''subscription''),
      paymentId = js_or (get latest ''Payment ID'') (get latest ''payment_id'')\<rparr>"

text \<open>
  \<^verbatim>\<open>findLatestPayment(payments, email, uscreenId)\<close>; \<open>None\<close> is \<^verbatim>\<open>null\<close>. The sorted
  array is as long as \<^verbatim>\<open>userPayments\<close>, so \<^verbatim>\<open>userPayments[0]\<close> exists after the length
  test; the empty case of the \<^theory_text>\<open>case\<close> is never taken.
\<close>

definition findLatestPayment :: "row list \<Rightarrow> string \<Rightarrow> jsval \<Rightarrow> latestPayment option" where
  "findLatestPayment payments' email' uscreenId' =
     (let userPayments = filter (user_payment email' uscreenId') payments'
      in if length userPayments = 0 then None
         else (case array_sort date_desc userPayments of
                 [] \<Rightarrow> None
               | latest # rest \<Rightarrow> Some (latest_of latest)))"

subsection \<open>\<^verbatim>\<open>compare\<close>\<close>

record uscreenData =
  users :: "row list"
  payments :: "row list"

text \<open>
  The entries of the result lists. \<open>userData\<close> holds the three properties every entry
  has; \<open>matchData\<close> is the object of that name in the source, which the entries of
  \<^verbatim>\<open>cancelled\<close> and \<^verbatim>\<open>needsUpdate\<close> spread and extend. A \<^verbatim>\<open>Date\<close> or \<^verbatim>\<open>null\<close> is a
  \<^typ>\<open>jsdate option\<close>.
\<close>

record userData =
  uscreenUser :: row
  uscreenId :: jsval
  email :: string

record matchData = userData +
  sfRecord :: sfRecord

record cancelledEntry = matchData +
  previousStatus :: jsval
  newStatus :: string

record updateEntry = matchData +
  latestPayment :: latestPayment
  sfLastPaymentDate :: "jsdate option"
  uscreenLastPaymentDate' :: "jsdate option"

record newUserEntry = userData +
  lifetime :: jsnum
  status :: string

record noMatchEntry = userData +
  reason :: string

record results =
  matched :: "matchData list"
  needsUpdate :: "updateEntry list"
  newUsers :: "newUserEntry list"
  cancelled :: "cancelledEntry list"
  noMatch :: "noMatchEntry list"

definition no_results :: results where
  "no_results = \<lparr>matched = [], needsUpdate = [], newUsers = [], cancelled = [], noMatch = []\<rparr>"

text \<open>The four values read from a user at the head of the loop body (lines 37 to 40).\<close>

definition user_id :: "row \<Rightarrow> jsval" where
  "user_id user = js_or (js_or (get user ''User ID'') (get user ''user_id'')) (get user ''id'')"

definition user_email :: "row \<Rightarrow> string" where
  "user_email user = toLowerCase (or_empty (js_or (get user ''email'') (get user ''User email'')))"

definition user_status :: "row \<Rightarrow> string" where
  "user_status user = toLowerCase (or_empty (js_or (get user ''Status'') (get user ''status'')))"

definition user_lifetime :: "row \<Rightarrow> jsnum" where
  "user_lifetime user = parseFloat_or0 (js_or (get user ''Lifetime'') (get user ''lifetime''))"

text \<open>Lines 43 to 46: the id map first, the email map when that gave nothing.\<close>

definition match_sf :: "DataComparer \<Rightarrow> jsval \<Rightarrow> string \<Rightarrow> sfRecord option" where
  "match_sf this uscreenId' email' =
     (let found = sfByUscreenId this (String uscreenId')
      in if found = None \<and> email' \<noteq> [] then sfByEmail this email' else found)"

text \<open>The test of lines 60 and 61.\<close>

definition is_cancelled :: "row \<Rightarrow> bool" where
  "is_cancelled user =
     (user_status user = ''cancelled'' \<or> user_status user = ''churned''
      \<or> includes_str (toLowerCase (or_empty (get user ''Segment''))) ''churned'')"

text \<open>Lines 72 to 75: a \<^verbatim>\<open>Date\<close> when the text is truthy, \<^verbatim>\<open>null\<close> otherwise.\<close>

definition date_or_null :: "jsval \<Rightarrow> jsdate option" where
  "date_or_null v = (if truthy v then Some (new_Date v) else None)"

text \<open>
  The test of line 77,
  \<^verbatim>\<open>uscreenPaymentDate && (!sfLastPaymentDate || uscreenPaymentDate > sfLastPaymentDate)\<close>.
\<close>

definition is_newer :: "jsdate option \<Rightarrow> jsdate option \<Rightarrow> bool" where
  "is_newer uscreenPaymentDate sfLast =
     (case uscreenPaymentDate of
        None \<Rightarrow> False
      | Some pd \<Rightarrow> (case sfLast of None \<Rightarrow> True | Some sd \<Rightarrow> date_gt pd sd))"

text \<open>The body of the loop \<^verbatim>\<open>for (const user of uscreenUsers)\<close> (lines 36 to 106).\<close>

definition process_user :: "DataComparer \<Rightarrow> row list \<Rightarrow> results \<Rightarrow> row \<Rightarrow> results" where
  "process_user this uscreenPayments res user =
     (let uid = user_id user; em = user_email user
      in case match_sf this uid em of
           Some sf \<Rightarrow>
             let r1 = res\<lparr>matched := matched res @
                        [\<lparr>uscreenUser = user, uscreenId = uid, email = em, sfRecord = sf\<rparr>]\<rparr>;
                 r2 = (if is_cancelled user
                       then r1\<lparr>cancelled := cancelled r1 @
                              [\<lparr>uscreenUser = user, uscreenId = uid, email = em, sfRecord = sf,
                                previousStatus = uscreenSubscriptionStatus sf,
                                newStatus = ''cancelled''\<rparr>]\<rparr>
                       else r1)
             in (case findLatestPayment uscreenPayments em uid of
                   None \<Rightarrow> r2
                 | Some lp \<Rightarrow>
                     let sfLast = date_or_null (uscreenLastPaymentDate sf);
                         uscreenPaymentDate = date_or_null (chargeDate lp)
                     in if is_newer uscreenPaymentDate sfLast
                        then r2\<lparr>needsUpdate := needsUpdate r2 @
                               [\<lparr>uscreenUser = user, uscreenId = uid, email = em, sfRecord = sf,
                                 latestPayment = lp, sfLastPaymentDate = sfLast,
                                 uscreenLastPaymentDate' = uscreenPaymentDate\<rparr>]\<rparr>
                        else r2)
         | None \<Rightarrow>
             if num_gt (user_lifetime user) (Fin 0)
             then res\<lparr>newUsers := newUsers res @
                    [\<lparr>uscreenUser = user, uscreenId = uid, email = em,
                      lifetime = user_lifetime user, status = user_status user\<rparr>]\<rparr>
             else res\<lparr>noMatch := noMatch res @
                    [\<lparr>uscreenUser = user, uscreenId = uid, email = em,
                      reason = ''No SF match, $0 lifetime''\<rparr>]\<rparr>)"

text \<open>
  \<^verbatim>\<open>compare(uscreenData, sfData)\<close> on the object \<open>this\<close>: the result lists, and the
  object as the call leaves it (its maps are written by the first loop).
\<close>

definition compare :: "DataComparer \<Rightarrow> uscreenData \<Rightarrow> sfRecord list \<Rightarrow> results \<times> DataComparer" where
  "compare this data sfData =
     (let this' = build_lookup this sfData
      in (foldl (process_user this' (payments data)) no_results (users data), this'))"

subsection \<open>Notions used to state the properties\<close>

text \<open>A user is matched when the lookup of lines 43 to 46 finds a record.\<close>

definition is_matched :: "DataComparer \<Rightarrow> row \<Rightarrow> bool" where
  "is_matched this user = (match_sf this (user_id user) (user_email user) \<noteq> None)"

text \<open>The test \<^verbatim>\<open>lifetime > 0\<close> of line 89.\<close>

definition is_paying :: "row \<Rightarrow> bool" where
  "is_paying user = num_gt (user_lifetime user) (Fin 0)"

text \<open>Lines 70 to 77 for a user and the record it matched: the tests that guard the push.\<close>

definition needs_update :: "row list \<Rightarrow> row \<Rightarrow> sfRecord \<Rightarrow> bool" where
  "needs_update ps user sf =
     (case findLatestPayment ps (user_email user) (user_id user) of
        None \<Rightarrow> False
      | Some lp \<Rightarrow>
          is_newer (date_or_null (chargeDate lp)) (date_or_null (uscreenLastPaymentDate sf)))"

subsection \<open>Sample inputs\<close>

text \<open>
  A paying member and its record, with a payment a month after the recorded one; a
  cancelled member and its record, with a payment and no recorded payment date.
\<close>

definition member7 :: row where
  "member7 = [''id'' \<mapsto> ''7'', ''email'' \<mapsto> ''b@y.com'', ''status'' \<mapsto> ''active'',
              ''Lifetime'' \<mapsto> ''100'']"

definition target7 :: sfRecord where
  "target7 = \<lparr>sfId = ''a07'', contactEmail = [], uscreenMemberId = Str ''7'',
               uscreenSubscriptionStatus = Str ''active'',
               uscreenLastPaymentDate = Str ''2024-01-01''\<rparr>"

definition payment7 :: row where
  "payment7 = [''User ID'' \<mapsto> ''7'', ''Charge Amount'' \<mapsto> ''20'',
               ''Charge Date'' \<mapsto> ''2024-02-01'', ''Payment ID'' \<mapsto> ''p7'']"

definition member8 :: row where
  "member8 = [''id'' \<mapsto> ''8'', ''Status'' \<mapsto> ''Cancelled'']"

definition target8 :: sfRecord where
  "target8 = \<lparr>sfId = ''a08'', contactEmail = [], uscreenMemberId = Str ''8'',
               uscreenSubscriptionStatus = Str ''active'', uscreenLastPaymentDate = Null\<rparr>"

definition payment8 :: row where
  "payment8 = [''User ID'' \<mapsto> ''8'', ''Charge Amount'' \<mapsto> ''20'',
               ''Charge Date'' \<mapsto> ''2024-02-01'', ''Payment ID'' \<mapsto> ''p8'']"

text \<open>
  Two records with the same member id and, up to case, the same contact email; a member
  whose id points to one record and whose email points to another; members without an id.
\<close>

definition target7_old :: sfRecord where
  "target7_old = \<lparr>sfId = ''a01'', contactEmail = ''B@Y.com'', uscreenMemberId = Str ''7'',
                   uscreenSubscriptionStatus = Str ''active'', uscreenLastPaymentDate = Null\<rparr>"

definition target7_new :: sfRecord where
  "target7_new = \<lparr>sfId = ''a02'', contactEmail = ''b@y.COM'', uscreenMemberId = Str ''7'',
                   uscreenSubscriptionStatus = Str ''trial'', uscreenLastPaymentDate = Null\<rparr>"

definition member123 :: row where
  "member123 = [''User ID'' \<mapsto> ''123'', ''email'' \<mapsto> ''m@x.com'']"

definition target123 :: sfRecord where
  "target123 = \<lparr>sfId = ''a03'', contactEmail = ''other@x.com'', uscreenMemberId = Str ''123'',
                 uscreenSubscriptionStatus = Null, uscreenLastPaymentDate = Null\<rparr>"

definition target999 :: sfRecord where
  "target999 = \<lparr>sfId = ''a04'', contactEmail = ''m@x.com'', uscreenMemberId = Str ''999'',
                 uscreenSubscriptionStatus = Null, uscreenLastPaymentDate = Null\<rparr>"

definition member_no_id :: row where
  "member_no_id = [''email'' \<mapsto> ''a@x.com'']"

definition member_empty_id :: row where
  "member_empty_id = [''id'' \<mapsto> [], ''email'' \<mapsto> ''a@x.com'']"

definition target55 :: sfRecord where
  "target55 = \<lparr>sfId = ''a05'', contactEmail = ''A@X.COM'', uscreenMemberId = Str ''55'',
                uscreenSubscriptionStatus = Null, uscreenLastPaymentDate = Null\<rparr>"

text \<open>
  A member and a payment that both lack an email and have different user ids; a payment
  whose amount text starts with a currency sign.
\<close>

definition member41 :: row where
  "member41 = [''id'' \<mapsto> ''41'', ''Lifetime'' \<mapsto> ''100'']"

definition payment42 :: row where
  "payment42 = [''User ID'' \<mapsto> ''42'', ''Charge Amount'' \<mapsto> ''20'', ''Payment ID'' \<mapsto> ''p42'']"

definition payment_dollar :: row where
  "payment_dollar = [''User ID'' \<mapsto> ''7'', ''Charge Amount'' \<mapsto> ''$20.00'',
                     ''Charge Date'' \<mapsto> ''2024-02-01'', ''Payment ID'' \<mapsto> ''p9'']"

definition payment_free :: row where
  "payment_free = [''User ID'' \<mapsto> ''7'', ''Charge Date'' \<mapsto> ''2024-02-01'',
                   ''Payment ID'' \<mapsto> ''p0'']"

text \<open>
  Payments of member 7: one with no charge date, one dated the day before the epoch, one
  whose charge date is not a date.
\<close>

definition payment_undated :: row where
  "payment_undated = [''User ID'' \<mapsto> ''7'', ''Charge Amount'' \<mapsto> ''20'', ''Payment ID'' \<mapsto> ''p1'']"

definition payment1969 :: row where
  "payment1969 = [''User ID'' \<mapsto> ''7'', ''Charge Amount'' \<mapsto> ''20'',
                  ''Charge Date'' \<mapsto> ''1969-12-31'', ''Payment ID'' \<mapsto> ''p2'']"

definition payment_baddate :: row where
  "payment_baddate = [''User ID'' \<mapsto> ''7'', ''Charge Amount'' \<mapsto> ''20'',
                      ''Charge Date'' \<mapsto> ''n/a'', ''Payment ID'' \<mapsto> ''p3'']"

text \<open>A record for member 7 with no payment date.\<close>

definition target7_undated :: sfRecord where
  "target7_undated = \<lparr>sfId = ''a07'', contactEmail = [], uscreenMemberId = Str ''7'',
                       uscreenSubscriptionStatus = Str ''active'', uscreenLastPaymentDate = Null\<rparr>"

text \<open>A payment of member 7 on the day the record \<open>target7\<close> has as last payment date.\<close>

definition payment_jan :: row where
  "payment_jan = [''User ID'' \<mapsto> ''7'', ''Charge Amount'' \<mapsto> ''20'',
                  ''Charge Date'' \<mapsto> ''2024-01-01'', ''Payment ID'' \<mapsto> ''p4'']"

subsection \<open>The claims' reading of dates\<close>

text \<open>\<^verbatim>\<open>a <= b\<close> on two \<^verbatim>\<open>Date\<close> objects, used to say that a date is the latest.\<close>

fun date_le :: "jsdate \<Rightarrow> jsdate \<Rightarrow> bool" where
  "date_le (Time a) (Time b) = (a \<le> b)"
| "date_le a b = False"

text \<open>A date text parses when it is absent (falsy) or gives a valid \<^verbatim>\<open>Date\<close>.\<close>

definition parses :: "jsval \<Rightarrow> bool" where
  "parses v = (if truthy v then new_Date v \<noteq> Invalid_Date else True)"

text \<open>
  The specification's words for the update decision, to compare the code with: a missing
  or unparseable date is the earliest possible instant, and a member needs an update when
  a latest qualifying payment exists whose instant is strictly later than the instant of
  the record's last payment date.
\<close>

datatype instant = Earliest | At int

definition spec_instant :: "jsval \<Rightarrow> instant" where
  "spec_instant v =
     (if truthy v then (case new_Date v of Time t \<Rightarrow> At t | Invalid_Date \<Rightarrow> Earliest)
      else Earliest)"

fun later :: "instant \<Rightarrow> instant \<Rightarrow> bool" where
  "later (At a) (At b) = (b < a)"
| "later (At a) Earliest = True"
| "later Earliest b = False"

definition spec_needs_update :: "latestPayment option \<Rightarrow> sfRecord \<Rightarrow> bool" where
  "spec_needs_update found sf =
     (case found of
        None \<Rightarrow> False
      | Some lp \<Rightarrow> later (spec_instant (chargeDate lp)) (spec_instant (uscreenLastPaymentDate sf)))"

section \<open>The loop over the users\<close>

text \<open>Each round appends to the lists; what it appends does not depend on the lists.\<close>

lemma step_matched:
  "matched (process_user c ps res u) = matched res @ matched (process_user c ps no_results u)"
  by (simp add: process_user_def no_results_def Let_def split: option.split)

lemma step_needsUpdate:
  "needsUpdate (process_user c ps res u) = needsUpdate res @ needsUpdate (process_user c ps no_results u)"
  by (simp add: process_user_def no_results_def Let_def split: option.split)

lemma step_newUsers:
  "newUsers (process_user c ps res u) = newUsers res @ newUsers (process_user c ps no_results u)"
  by (simp add: process_user_def no_results_def Let_def split: option.split)

lemma step_cancelled:
  "cancelled (process_user c ps res u) = cancelled res @ cancelled (process_user c ps no_results u)"
  by (simp add: process_user_def no_results_def Let_def split: option.split)

lemma step_noMatch:
  "noMatch (process_user c ps res u) = noMatch res @ noMatch (process_user c ps no_results u)"
  by (simp add: process_user_def no_results_def Let_def split: option.split)

lemma loop_matched:
  "matched (foldl (process_user c ps) res us) =
     matched res @ concat (map (\<lambda>u. matched (process_user c ps no_results u)) us)"
proof (induction us arbitrary: res)
  case Nil
  show ?case by simp
next
  case (Cons u us)
  show ?case by (simp add: Cons.IH step_matched [of c ps res u])
qed

lemma loop_needsUpdate:
  "needsUpdate (foldl (process_user c ps) res us) =
     needsUpdate res @ concat (map (\<lambda>u. needsUpdate (process_user c ps no_results u)) us)"
proof (induction us arbitrary: res)
  case Nil
  show ?case by simp
next
  case (Cons u us)
  show ?case by (simp add: Cons.IH step_needsUpdate [of c ps res u])
qed

lemma loop_newUsers:
  "newUsers (foldl (process_user c ps) res us) =
     newUsers res @ concat (map (\<lambda>u. newUsers (process_user c ps no_results u)) us)"
proof (induction us arbitrary: res)
  case Nil
  show ?case by simp
next
  case (Cons u us)
  show ?case by (simp add: Cons.IH step_newUsers [of c ps res u])
qed

lemma loop_cancelled:
  "cancelled (foldl (process_user c ps) res us) =
     cancelled res @ concat (map (\<lambda>u. cancelled (process_user c ps no_results u)) us)"
proof (induction us arbitrary: res)
  case Nil
  show ?case by simp
next
  case (Cons u us)
  show ?case by (simp add: Cons.IH step_cancelled [of c ps res u])
qed

lemma loop_noMatch:
  "noMatch (foldl (process_user c ps) res us) =
     noMatch res @ concat (map (\<lambda>u. noMatch (process_user c ps no_results u)) us)"
proof (induction us arbitrary: res)
  case Nil
  show ?case by simp
next
  case (Cons u us)
  show ?case by (simp add: Cons.IH step_noMatch [of c ps res u])
qed

text \<open>What one user adds to each list.\<close>

lemma one_matched:
  "matched (process_user c ps no_results u) =
     (case match_sf c (user_id u) (user_email u) of
        None \<Rightarrow> []
      | Some sf \<Rightarrow> [\<lparr>uscreenUser = u, uscreenId = user_id u, email = user_email u, sfRecord = sf\<rparr>])"
  by (simp add: process_user_def no_results_def Let_def split: option.split)

lemma one_cancelled:
  "cancelled (process_user c ps no_results u) =
     (case match_sf c (user_id u) (user_email u) of
        None \<Rightarrow> []
      | Some sf \<Rightarrow>
          if is_cancelled u
          then [\<lparr>uscreenUser = u, uscreenId = user_id u, email = user_email u, sfRecord = sf,
                 previousStatus = uscreenSubscriptionStatus sf, newStatus = ''cancelled''\<rparr>]
          else [])"
  by (simp add: process_user_def no_results_def Let_def split: option.split)

lemma one_needsUpdate:
  "needsUpdate (process_user c ps no_results u) =
     (case match_sf c (user_id u) (user_email u) of
        None \<Rightarrow> []
      | Some sf \<Rightarrow>
          (case findLatestPayment ps (user_email u) (user_id u) of
             None \<Rightarrow> []
           | Some lp \<Rightarrow>
               if is_newer (date_or_null (chargeDate lp)) (date_or_null (uscreenLastPaymentDate sf))
               then [\<lparr>uscreenUser = u, uscreenId = user_id u, email = user_email u, sfRecord = sf,
                      latestPayment = lp,
                      sfLastPaymentDate = date_or_null (uscreenLastPaymentDate sf),
                      uscreenLastPaymentDate' = date_or_null (chargeDate lp)\<rparr>]
               else []))"
  by (simp add: process_user_def no_results_def Let_def split: option.split)

lemma one_newUsers:
  "newUsers (process_user c ps no_results u) =
     (if \<not> is_matched c u \<and> is_paying u
      then [\<lparr>uscreenUser = u, uscreenId = user_id u, email = user_email u,
             lifetime = user_lifetime u, status = user_status u\<rparr>]
      else [])"
  by (simp add: process_user_def no_results_def is_matched_def is_paying_def Let_def split: option.split)

lemma one_noMatch:
  "noMatch (process_user c ps no_results u) =
     (if \<not> is_matched c u \<and> \<not> is_paying u
      then [\<lparr>uscreenUser = u, uscreenId = user_id u, email = user_email u,
             reason = ''No SF match, $0 lifetime''\<rparr>]
      else [])"
  by (simp add: process_user_def no_results_def is_matched_def is_paying_def Let_def split: option.split)

lemma no_results_fields:
  "matched no_results = []" "needsUpdate no_results = []" "newUsers no_results = []"
  "cancelled no_results = []" "noMatch no_results = []"
  by (simp_all add: no_results_def)

lemma concat_select: "concat (map (\<lambda>u. if P u then [u] else []) us) = filter P us"
  by (induction us) simp_all

lemma users_of_concat:
  assumes "\<And>u. map sel (g u) = (if P u then [u] else [])"
  shows "map sel (concat (map g us)) = filter P us"
  using assms by (induction us) (simp_all)

lemma compare_matched_users:
  "map uscreenUser (matched (fst (compare c d s))) = filter (is_matched (build_lookup c s)) (users d)"
  unfolding compare_def Let_def fst_conv loop_matched
  by (simp add: no_results_fields, rule users_of_concat) (simp add: one_matched is_matched_def split: option.split)

lemma compare_newUsers_users:
  "map uscreenUser (newUsers (fst (compare c d s))) =
     filter (\<lambda>u. \<not> is_matched (build_lookup c s) u \<and> is_paying u) (users d)"
  unfolding compare_def Let_def fst_conv loop_newUsers
  by (simp add: no_results_fields, rule users_of_concat) (simp add: one_newUsers)

lemma compare_noMatch_users:
  "map uscreenUser (noMatch (fst (compare c d s))) =
     filter (\<lambda>u. \<not> is_matched (build_lookup c s) u \<and> \<not> is_paying u) (users d)"
  unfolding compare_def Let_def fst_conv loop_noMatch
  by (simp add: no_results_fields, rule users_of_concat) (simp add: one_noMatch)

lemma compare_cancelled_users:
  "map uscreenUser (cancelled (fst (compare c d s))) =
     filter (\<lambda>u. is_matched (build_lookup c s) u \<and> is_cancelled u) (users d)"
  unfolding compare_def Let_def fst_conv loop_cancelled
  by (simp add: no_results_fields, rule users_of_concat) (simp add: one_cancelled is_matched_def split: option.split)

lemma compare_needsUpdate_users:
  "map uscreenUser (needsUpdate (fst (compare c d s))) =
     filter (\<lambda>u. \<exists>sf. match_sf (build_lookup c s) (user_id u) (user_email u) = Some sf
                  \<and> needs_update (payments d) u sf) (users d)"
  unfolding compare_def Let_def fst_conv loop_needsUpdate
  by (simp add: no_results_fields, rule users_of_concat) (simp add: one_needsUpdate needs_update_def split: option.split)

lemma filter_three_way:
  "length (filter M us) + length (filter (\<lambda>u. \<not> M u \<and> P u) us)
     + length (filter (\<lambda>u. \<not> M u \<and> \<not> P u) us) = length us"
  by (induction us) auto

lemma mset_three_way:
  "mset (filter M us) + mset (filter (\<lambda>u. \<not> M u \<and> P u) us)
     + mset (filter (\<lambda>u. \<not> M u \<and> \<not> P u) us) = mset us"
  by (induction us) auto

section \<open>The result lists\<close>

text \<open>
  Claim C5. For every object state, every list of users, payments and Salesforce records,
  \<^verbatim>\<open>compare\<close> puts each user in exactly one of \<^verbatim>\<open>matched\<close>, \<^verbatim>\<open>newUsers\<close> and
  \<^verbatim>\<open>noMatch\<close>: the three lengths add up to the number of users, the users of the three
  lists taken together are the users of the input with their multiplicities, and no user
  is in two of the lists.
\<close>

theorem compare_partitions_members:
  "(let r = fst (compare c d s);
        m = map uscreenUser (matched r);
        n = map uscreenUser (newUsers r);
        x = map uscreenUser (noMatch r)
    in length (matched r) + length (newUsers r) + length (noMatch r) = length (users d)
       \<and> mset m + mset n + mset x = mset (users d)
       \<and> set m \<inter> set n = {} \<and> set m \<inter> set x = {} \<and> set n \<inter> set x = {})"
proof -
  let ?r = "fst (compare c d s)"
  let ?M = "is_matched (build_lookup c s)"
  have len: "length (matched ?r) + length (newUsers ?r) + length (noMatch ?r) = length (users d)"
    using filter_three_way [of ?M "users d" is_paying]
    by (simp flip: compare_matched_users compare_newUsers_users compare_noMatch_users)
  have ms: "mset (map uscreenUser (matched ?r)) + mset (map uscreenUser (newUsers ?r))
              + mset (map uscreenUser (noMatch ?r)) = mset (users d)"
    unfolding compare_matched_users compare_newUsers_users compare_noMatch_users
    by (rule mset_three_way)
  have dj: "set (map uscreenUser (matched ?r)) \<inter> set (map uscreenUser (newUsers ?r)) = {}"
    "set (map uscreenUser (matched ?r)) \<inter> set (map uscreenUser (noMatch ?r)) = {}"
    "set (map uscreenUser (newUsers ?r)) \<inter> set (map uscreenUser (noMatch ?r)) = {}"
    unfolding compare_matched_users compare_newUsers_users compare_noMatch_users
    by auto
  show ?thesis
    unfolding Let_def using len ms dj by blast
qed

lemma compare_matched_set:
  "set (matched (fst (compare c d s))) =
     (\<Union>u\<in>set (users d). set (matched (process_user (build_lookup c s) (payments d) no_results u)))"
  by (simp add: compare_def Let_def loop_matched no_results_fields)

lemma compare_cancelled_set:
  "set (cancelled (fst (compare c d s))) =
     (\<Union>u\<in>set (users d). set (cancelled (process_user (build_lookup c s) (payments d) no_results u)))"
  by (simp add: compare_def Let_def loop_cancelled no_results_fields)

lemma compare_needsUpdate_set:
  "set (needsUpdate (fst (compare c d s))) =
     (\<Union>u\<in>set (users d). set (needsUpdate (process_user (build_lookup c s) (payments d) no_results u)))"
  by (simp add: compare_def Let_def loop_needsUpdate no_results_fields)

lemma one_needsUpdate_matched:
  "e \<in> set (needsUpdate (process_user c ps no_results u)) \<Longrightarrow>
     matchData.truncate e \<in> set (matched (process_user c ps no_results u))"
  by (auto simp add: one_needsUpdate one_matched matchData.truncate_def split: option.splits if_splits)

lemma one_cancelled_matched:
  "e \<in> set (cancelled (process_user c ps no_results u)) \<Longrightarrow>
     matchData.truncate e \<in> set (matched (process_user c ps no_results u))"
  by (auto simp add: one_cancelled one_matched matchData.truncate_def split: option.splits if_splits)

lemma needsUpdate_entries_matched:
  "matchData.truncate ` set (needsUpdate (fst (compare c d s))) \<subseteq> set (matched (fst (compare c d s)))"
  unfolding compare_needsUpdate_set compare_matched_set
  using one_needsUpdate_matched by blast

lemma cancelled_entries_matched:
  "matchData.truncate ` set (cancelled (fst (compare c d s))) \<subseteq> set (matched (fst (compare c d s)))"
  unfolding compare_cancelled_set compare_matched_set
  using one_cancelled_matched by blast

lemma needsUpdate_users_matched:
  "set (map uscreenUser (needsUpdate (fst (compare c d s)))) \<subseteq> set (map uscreenUser (matched (fst (compare c d s))))"
  unfolding compare_needsUpdate_users compare_matched_users
  by (auto simp add: is_matched_def)

lemma cancelled_users_matched:
  "set (map uscreenUser (cancelled (fst (compare c d s)))) \<subseteq> set (map uscreenUser (matched (fst (compare c d s))))"
  unfolding compare_cancelled_users compare_matched_users
  by auto

subsection \<open>Values of the built-in functions on the texts of the samples\<close>

lemmas parse_defs = parseFloat_def is_space_def unsigned_literal_def is_digit_def digits_val_def
  digit_val_def exponent_part_def scale10_def to_number_def

lemma parseFloat_20: "parseFloat ''20'' = Fin 20"
  by (simp add: parse_defs)

lemma parseFloat_100: "parseFloat ''100'' = Fin 100"
  by (simp add: parse_defs)

lemma lower_empty: "toLowerCase [] = []"
  by (simp add: toLowerCase_def)

lemma lower_samples:
  "toLowerCase ''b@y.com'' = ''b@y.com''"
  "toLowerCase ''active'' = ''active''"
  "toLowerCase ''Cancelled'' = ''cancelled''"
  by code_simp+

lemma includes_empty: "includes_str [] ''churned'' = False"
  by simp

lemma date_samples:
  "Date_parse ''2024-01-01'' = Time 1704067200000"
  "Date_parse ''2024-02-01'' = Time 1706745600000"
  by code_simp+

lemmas sample_defs = member7_def target7_def payment7_def member8_def target8_def payment8_def

lemmas eval_defs = match_sf_def build_lookup_def index_sf_def new_DataComparer_def
  findLatestPayment_def user_payment_def payment_amount_def parseFloat_or0_def
  user_id_def user_email_def user_status_def user_lifetime_def get_def js_or_def or_empty_def
  latest_of_def is_newer_def date_or_null_def needs_update_def is_matched_def is_cancelled_def
  is_paying_def sort_date_def date_desc_def sort_compare_def Date_or0_def

lemmas eval_values = parseFloat_20 parseFloat_100 lower_empty lower_samples includes_empty
  date_samples

subsection \<open>\<^verbatim>\<open>needsUpdate\<close> and \<^verbatim>\<open>cancelled\<close> within \<^verbatim>\<open>matched\<close>\<close>

text \<open>
  Claim C6. For every input, the \<^verbatim>\<open>matchData\<close> part of every entry of \<^verbatim>\<open>needsUpdate\<close>
  and of every entry of \<^verbatim>\<open>cancelled\<close> is an entry of \<^verbatim>\<open>matched\<close>, so the users of both
  lists are users of \<^verbatim>\<open>matched\<close>. Neither list decides the other: the paying sample
  member is in \<^verbatim>\<open>needsUpdate\<close> and not in \<^verbatim>\<open>cancelled\<close>, the cancelled sample member
  is in both when it has a payment, and in \<^verbatim>\<open>cancelled\<close> only when it has none.
\<close>

theorem needsUpdate_cancelled_within_matched:
  "(let r = fst (compare c d s)
    in matchData.truncate ` set (needsUpdate r) \<subseteq> set (matched r)
       \<and> matchData.truncate ` set (cancelled r) \<subseteq> set (matched r)
       \<and> set (map uscreenUser (needsUpdate r)) \<subseteq> set (map uscreenUser (matched r))
       \<and> set (map uscreenUser (cancelled r)) \<subseteq> set (map uscreenUser (matched r)))
   \<and> (let r = fst (compare new_DataComparer \<lparr>users = [member7], payments = [payment7]\<rparr> [target7])
      in map uscreenUser (needsUpdate r) = [member7] \<and> map uscreenUser (cancelled r) = [])
   \<and> (let r = fst (compare new_DataComparer \<lparr>users = [member8], payments = [payment8]\<rparr> [target8])
      in map uscreenUser (needsUpdate r) = [member8] \<and> map uscreenUser (cancelled r) = [member8])
   \<and> (let r = fst (compare new_DataComparer \<lparr>users = [member8], payments = []\<rparr> [target8])
      in map uscreenUser (needsUpdate r) = [] \<and> map uscreenUser (cancelled r) = [member8])"
proof -
  have general: "(let r = fst (compare c d s)
    in matchData.truncate ` set (needsUpdate r) \<subseteq> set (matched r)
       \<and> matchData.truncate ` set (cancelled r) \<subseteq> set (matched r)
       \<and> set (map uscreenUser (needsUpdate r)) \<subseteq> set (map uscreenUser (matched r))
       \<and> set (map uscreenUser (cancelled r)) \<subseteq> set (map uscreenUser (matched r)))"
    unfolding Let_def
    by (intro conjI needsUpdate_entries_matched cancelled_entries_matched
        needsUpdate_users_matched cancelled_users_matched)
  have a: "(let r = fst (compare new_DataComparer \<lparr>users = [member7], payments = [payment7]\<rparr> [target7])
      in map uscreenUser (needsUpdate r) = [member7] \<and> map uscreenUser (cancelled r) = [])"
    unfolding Let_def compare_needsUpdate_users compare_cancelled_users
    by (simp add: eval_defs sample_defs eval_values)
  have b: "(let r = fst (compare new_DataComparer \<lparr>users = [member8], payments = [payment8]\<rparr> [target8])
      in map uscreenUser (needsUpdate r) = [member8] \<and> map uscreenUser (cancelled r) = [member8])"
    unfolding Let_def compare_needsUpdate_users compare_cancelled_users
    by (simp add: eval_defs sample_defs eval_values)
  have c: "(let r = fst (compare new_DataComparer \<lparr>users = [member8], payments = []\<rparr> [target8])
      in map uscreenUser (needsUpdate r) = [] \<and> map uscreenUser (cancelled r) = [member8])"
    unfolding Let_def compare_needsUpdate_users compare_cancelled_users
    by (simp add: eval_defs sample_defs eval_values)
  show ?thesis
    by (intro conjI general a b c)
qed

subsection \<open>The entries of the lists\<close>

lemma compare_matched:
  "matched (fst (compare c d s)) =
     concat (map (\<lambda>u. matched (process_user (build_lookup c s) (payments d) no_results u)) (users d))"
  by (simp add: compare_def Let_def loop_matched no_results_fields)

lemma compare_cancelled:
  "cancelled (fst (compare c d s)) =
     concat (map (\<lambda>u. cancelled (process_user (build_lookup c s) (payments d) no_results u)) (users d))"
  by (simp add: compare_def Let_def loop_cancelled no_results_fields)

lemma compare_needsUpdate:
  "needsUpdate (fst (compare c d s)) =
     concat (map (\<lambda>u. needsUpdate (process_user (build_lookup c s) (payments d) no_results u)) (users d))"
  by (simp add: compare_def Let_def loop_needsUpdate no_results_fields)

lemma compare_newUsers:
  "newUsers (fst (compare c d s)) =
     concat (map (\<lambda>u. newUsers (process_user (build_lookup c s) (payments d) no_results u)) (users d))"
  by (simp add: compare_def Let_def loop_newUsers no_results_fields)

lemma compare_noMatch:
  "noMatch (fst (compare c d s)) =
     concat (map (\<lambda>u. noMatch (process_user (build_lookup c s) (payments d) no_results u)) (users d))"
  by (simp add: compare_def Let_def loop_noMatch no_results_fields)

lemma one_cancelled_entry:
  "e \<in> set (cancelled (process_user c ps no_results u)) \<Longrightarrow>
     uscreenUser e = u \<and> match_sf c (user_id u) (user_email u) = Some (sfRecord e)
     \<and> previousStatus e = uscreenSubscriptionStatus (sfRecord e) \<and> newStatus e = ''cancelled''"
  by (auto simp add: one_cancelled split: option.splits if_splits)

lemma cancelled_entry:
  assumes "e \<in> set (cancelled (fst (compare c d s)))"
  shows "match_sf (build_lookup c s) (user_id (uscreenUser e)) (user_email (uscreenUser e)) = Some (sfRecord e)
     \<and> previousStatus e = uscreenSubscriptionStatus (sfRecord e)"
  using assms one_cancelled_entry unfolding compare_cancelled_set by blast

text \<open>
  Claim C9. A matched member is in \<^verbatim>\<open>cancelled\<close> exactly when its lower-cased status is
  \<^verbatim>\<open>cancelled\<close> or \<^verbatim>\<open>churned\<close>, or its lower-cased \<^verbatim>\<open>Segment\<close> text contains
  \<^verbatim>\<open>churned\<close>: a test on the user row alone. Every entry of \<^verbatim>\<open>cancelled\<close> carries the
  record the lookup found for its user, and its \<^verbatim>\<open>previousStatus\<close> is the
  \<^verbatim>\<open>uscreenSubscriptionStatus\<close> of that record.
\<close>

theorem cancelled_iff_status_or_segment:
  assumes "u \<in> set (map uscreenUser (matched (fst (compare c d s))))"
  shows "(u \<in> set (map uscreenUser (cancelled (fst (compare c d s)))) \<longleftrightarrow>
            user_status u = ''cancelled'' \<or> user_status u = ''churned''
            \<or> includes_str (toLowerCase (or_empty (get u ''Segment''))) ''churned'')
         \<and> (\<forall>e \<in> set (cancelled (fst (compare c d s))).
               match_sf (build_lookup c s) (user_id (uscreenUser e)) (user_email (uscreenUser e))
                 = Some (sfRecord e)
               \<and> previousStatus e = uscreenSubscriptionStatus (sfRecord e))"
proof -
  from assms have m: "u \<in> set (users d)" "is_matched (build_lookup c s) u"
    unfolding compare_matched_users by simp_all
  have "u \<in> set (map uscreenUser (cancelled (fst (compare c d s)))) \<longleftrightarrow> is_cancelled u"
    unfolding compare_cancelled_users using m by simp
  then show ?thesis
    using cancelled_entry [of _ c d s] by (simp add: is_cancelled_def)
qed

theorem cancelled_iff_status_or_segment_witness:
  "member8 \<in> set (map uscreenUser (matched (fst (compare new_DataComparer
       \<lparr>users = [member8], payments = []\<rparr> [target8]))))
   \<and> member8 \<in> set (map uscreenUser (cancelled (fst (compare new_DataComparer
       \<lparr>users = [member8], payments = []\<rparr> [target8]))))
   \<and> user_status member8 = ''cancelled''
   \<and> map previousStatus (cancelled (fst (compare new_DataComparer
       \<lparr>users = [member8], payments = []\<rparr> [target8]))) = [Str ''active'']
   \<and> uscreenSubscriptionStatus target8 = Str ''active''"
proof -
  have m: "member8 \<in> set (map uscreenUser (matched (fst (compare new_DataComparer
       \<lparr>users = [member8], payments = []\<rparr> [target8]))))"
    unfolding compare_matched_users by (simp add: eval_defs sample_defs eval_values)
  have st: "user_status member8 = ''cancelled''"
    by (simp add: eval_defs sample_defs eval_values)
  have ps: "map previousStatus (cancelled (fst (compare new_DataComparer
       \<lparr>users = [member8], payments = []\<rparr> [target8]))) = [Str ''active'']"
    by (simp add: compare_cancelled one_cancelled eval_defs sample_defs eval_values)
  have t: "uscreenSubscriptionStatus target8 = Str ''active''"
    by (simp add: target8_def)
  from cancelled_iff_status_or_segment [OF m] st
  have "member8 \<in> set (map uscreenUser (cancelled (fst (compare new_DataComparer
       \<lparr>users = [member8], payments = []\<rparr> [target8]))))"
    by blast
  with m st ps t show ?thesis by (intro conjI)
qed

section \<open>The lookup maps\<close>

lemma build_lookup_snoc: "build_lookup c (xs @ [x]) = index_sf (build_lookup c xs) x"
  by (simp add: build_lookup_def)

lemma build_lookup_append: "build_lookup (build_lookup c xs) ys = build_lookup c (xs @ ys)"
  by (simp add: build_lookup_def)

text \<open>Each map holds, under a key, the last record of the list that writes the key.\<close>

lemma build_lookup_id:
  "sfByUscreenId (build_lookup c s) k =
     (case find (\<lambda>r. truthy (uscreenMemberId r) \<and> String (uscreenMemberId r) = k) (rev s) of
        Some r \<Rightarrow> Some r
      | None \<Rightarrow> sfByUscreenId c k)"
proof (induction s rule: rev_induct)
  case Nil
  show ?case by (simp add: build_lookup_def)
next
  case (snoc x xs)
  then show ?case
    by (simp add: build_lookup_snoc index_sf_def Let_def)
qed

lemma build_lookup_email:
  "sfByEmail (build_lookup c s) k =
     (case find (\<lambda>r. contactEmail r \<noteq> [] \<and> toLowerCase (contactEmail r) = k) (rev s) of
        Some r \<Rightarrow> Some r
      | None \<Rightarrow> sfByEmail c k)"
proof (induction s rule: rev_induct)
  case Nil
  show ?case by (simp add: build_lookup_def)
next
  case (snoc x xs)
  then show ?case
    by (simp add: build_lookup_snoc index_sf_def Let_def)
qed

lemma find_app:
  "find P (xs @ ys) = (case find P xs of None \<Rightarrow> find P ys | Some x \<Rightarrow> Some x)"
  by (induction xs) simp_all

lemma find_last_writer:
  assumes "P r" and "\<forall>x\<in>set after. \<not> P x"
  shows "find P (rev (before @ r # after)) = Some r"
proof -
  from assms(2) have "find P (rev after) = None"
    by (simp add: find_None_iff)
  with assms(1) show ?thesis
    by (simp add: find_app)
qed

lemma toLowerCase_Nil [simp]: "toLowerCase s = [] \<longleftrightarrow> s = []"
  by (simp add: toLowerCase_def)

text \<open>
  Claim C8. Building the maps is last-write-wins. Take any record \<open>r\<close> of the list of
  Salesforce records. If \<open>r\<close> has a member id and no later record of the list has the same
  id text, the id map holds \<open>r\<close> under that text, whatever earlier records with the same
  id there are, and every member whose id has that text resolves to \<open>r\<close>. If \<open>r\<close> has a
  contact email and no later record has the same lower-cased email, the email map holds
  \<open>r\<close> under it, and every member with that email whose id finds nothing resolves to \<open>r\<close>.
\<close>

theorem index_last_write_wins:
  assumes "sfData = before @ r # after"
  shows "(truthy (uscreenMemberId r)
          \<and> (\<forall>x\<in>set after. truthy (uscreenMemberId x) \<longrightarrow>
                String (uscreenMemberId x) \<noteq> String (uscreenMemberId r))
          \<longrightarrow> sfByUscreenId (build_lookup c sfData) (String (uscreenMemberId r)) = Some r
              \<and> (\<forall>i e. String i = String (uscreenMemberId r) \<longrightarrow>
                    match_sf (build_lookup c sfData) i e = Some r))
       \<and> (contactEmail r \<noteq> []
          \<and> (\<forall>x\<in>set after. contactEmail x \<noteq> [] \<longrightarrow>
                toLowerCase (contactEmail x) \<noteq> toLowerCase (contactEmail r))
          \<longrightarrow> sfByEmail (build_lookup c sfData) (toLowerCase (contactEmail r)) = Some r
              \<and> (\<forall>i. sfByUscreenId (build_lookup c sfData) (String i) = None \<longrightarrow>
                    match_sf (build_lookup c sfData) i (toLowerCase (contactEmail r)) = Some r))"
proof (intro conjI impI)
  assume a: "truthy (uscreenMemberId r)
          \<and> (\<forall>x\<in>set after. truthy (uscreenMemberId x) \<longrightarrow>
                String (uscreenMemberId x) \<noteq> String (uscreenMemberId r))"
  let ?P = "\<lambda>x. truthy (uscreenMemberId x) \<and> String (uscreenMemberId x) = String (uscreenMemberId r)"
  from a have "?P r" "\<forall>x\<in>set after. \<not> ?P x" by auto
  then have "find ?P (rev (before @ r # after)) = Some r"
    by (rule find_last_writer)
  then show stored: "sfByUscreenId (build_lookup c sfData) (String (uscreenMemberId r)) = Some r"
    by (simp add: build_lookup_id assms)
  then show "\<forall>i e. String i = String (uscreenMemberId r) \<longrightarrow>
                    match_sf (build_lookup c sfData) i e = Some r"
    by (simp add: match_sf_def)
next
  assume a: "contactEmail r \<noteq> []
          \<and> (\<forall>x\<in>set after. contactEmail x \<noteq> [] \<longrightarrow>
                toLowerCase (contactEmail x) \<noteq> toLowerCase (contactEmail r))"
  let ?P = "\<lambda>x. contactEmail x \<noteq> [] \<and> toLowerCase (contactEmail x) = toLowerCase (contactEmail r)"
  from a have "?P r" "\<forall>x\<in>set after. \<not> ?P x" by auto
  then have "find ?P (rev (before @ r # after)) = Some r"
    by (rule find_last_writer)
  then show stored: "sfByEmail (build_lookup c sfData) (toLowerCase (contactEmail r)) = Some r"
    by (simp add: build_lookup_email assms)
  with a show "\<forall>i. sfByUscreenId (build_lookup c sfData) (String i) = None \<longrightarrow>
                    match_sf (build_lookup c sfData) i (toLowerCase (contactEmail r)) = Some r"
    by (simp add: match_sf_def)
qed

lemma lower_targets:
  "toLowerCase ''B@Y.com'' = ''b@y.com''"
  "toLowerCase ''b@y.COM'' = ''b@y.com''"
  "toLowerCase ''other@x.com'' = ''other@x.com''"
  "toLowerCase ''m@x.com'' = ''m@x.com''"
  "toLowerCase ''a@x.com'' = ''a@x.com''"
  "toLowerCase ''A@X.COM'' = ''a@x.com''"
  by code_simp+

theorem index_last_write_wins_witness:
  "target7_old \<noteq> target7_new
   \<and> String (uscreenMemberId target7_old) = String (uscreenMemberId target7_new)
   \<and> toLowerCase (contactEmail target7_old) = toLowerCase (contactEmail target7_new)
   \<and> sfByUscreenId (build_lookup new_DataComparer [target7_old, target7_new]) ''7'' = Some target7_new
   \<and> sfByEmail (build_lookup new_DataComparer [target7_old, target7_new]) ''b@y.com'' = Some target7_new
   \<and> match_sf (build_lookup new_DataComparer [target7_old, target7_new]) (user_id member7) (user_email member7)
       = Some target7_new
   \<and> match_sf (build_lookup new_DataComparer [target7_old, target7_new]) Undefined (user_email member7)
       = Some target7_new"
proof -
  have s: "[target7_old, target7_new] = [target7_old] @ target7_new # []" by simp
  have v: "target7_old \<noteq> target7_new"
    "String (uscreenMemberId target7_old) = String (uscreenMemberId target7_new)"
    "toLowerCase (contactEmail target7_old) = toLowerCase (contactEmail target7_new)"
    "String (uscreenMemberId target7_new) = ''7''"
    "toLowerCase (contactEmail target7_new) = ''b@y.com''"
    "truthy (uscreenMemberId target7_new)" "contactEmail target7_new \<noteq> []"
    by (simp_all add: target7_old_def target7_new_def lower_targets)
  have u: "String (user_id member7) = ''7''" "user_email member7 = ''b@y.com''"
    by (simp_all add: eval_defs sample_defs eval_values)
  have none: "sfByUscreenId (build_lookup new_DataComparer [target7_old, target7_new]) (String Undefined) = None"
    by (simp add: eval_defs target7_old_def target7_new_def)
  from index_last_write_wins [OF s, of new_DataComparer] v u none show ?thesis
    by simp
qed

lemma no_empty_id_key: "sfByUscreenId (build_lookup new_DataComparer s) [] = None"
proof -
  have "find (\<lambda>r. truthy (uscreenMemberId r) \<and> String (uscreenMemberId r) = []) (rev s) = None"
    by (auto simp add: find_None_iff elim: truthy.elims)
  then show ?thesis
    by (simp add: build_lookup_id new_DataComparer_def)
qed

text \<open>
  Claim C7. The lookup for a member reads the id map at the member's id as text; a record
  found there is the result, whatever the email and the email map are. Only when the id
  map has nothing and the email is not empty is the email map read, at the email; with
  nothing in either the result is none. \<^verbatim>\<open>compare\<close> calls the lookup with the member's
  lower-cased email, and \<^verbatim>\<open>matched\<close> holds one entry for each member the lookup finds a
  record for. The empty id is never a key of maps built on a new object. On the samples:
  the member with id \<^verbatim>\<open>123\<close> gets the record with that id although its email is the
  contact email of another record; the members with no id, or an empty one, and email
  \<^verbatim>\<open>a@x.com\<close> get the record with contact email \<^verbatim>\<open>A@X.COM\<close>.
\<close>

theorem id_then_email_precedence:
  "match_sf this i e =
     (case sfByUscreenId this (String i) of
        Some r \<Rightarrow> Some r
      | None \<Rightarrow> if e \<noteq> [] then sfByEmail this e else None)
   \<and> matched (fst (compare c d s)) =
       concat (map (\<lambda>u. case match_sf (build_lookup c s) (user_id u)
                               (toLowerCase (or_empty (js_or (get u ''email'') (get u ''User email'')))) of
                          None \<Rightarrow> []
                        | Some sf \<Rightarrow> [\<lparr>uscreenUser = u, uscreenId = user_id u,
                                       email = user_email u, sfRecord = sf\<rparr>]) (users d))
   \<and> sfByUscreenId (build_lookup new_DataComparer s) (String (Str [])) = None
   \<and> map sfRecord (matched (fst (compare new_DataComparer
         \<lparr>users = [member123], payments = []\<rparr> [target123, target999]))) = [target123]
   \<and> sfByEmail (build_lookup new_DataComparer [target123, target999]) (user_email member123)
       = Some target999
   \<and> map sfRecord (matched (fst (compare new_DataComparer
         \<lparr>users = [member_no_id, member_empty_id], payments = []\<rparr> [target55])))
       = [target55, target55]
   \<and> map sfRecord (matched (fst (compare new_DataComparer
         \<lparr>users = [member_no_id], payments = []\<rparr> []))) = []"
proof -
  have a: "match_sf this i e =
     (case sfByUscreenId this (String i) of
        Some r \<Rightarrow> Some r
      | None \<Rightarrow> if e \<noteq> [] then sfByEmail this e else None)"
    by (simp add: match_sf_def split: option.split)
  have b: "matched (fst (compare c d s)) =
       concat (map (\<lambda>u. case match_sf (build_lookup c s) (user_id u)
                               (toLowerCase (or_empty (js_or (get u ''email'') (get u ''User email'')))) of
                          None \<Rightarrow> []
                        | Some sf \<Rightarrow> [\<lparr>uscreenUser = u, uscreenId = user_id u,
                                       email = user_email u, sfRecord = sf\<rparr>]) (users d))"
    unfolding compare_matched one_matched by (simp add: user_email_def)
  have c: "sfByUscreenId (build_lookup new_DataComparer s) (String (Str [])) = None"
    by (simp add: no_empty_id_key)
  have d: "map sfRecord (matched (fst (compare new_DataComparer
         \<lparr>users = [member123], payments = []\<rparr> [target123, target999]))) = [target123]"
    by (simp add: compare_matched one_matched eval_defs member123_def target123_def
        target999_def lower_targets)
  have e: "sfByEmail (build_lookup new_DataComparer [target123, target999]) (user_email member123)
       = Some target999"
    by (simp add: eval_defs member123_def target123_def target999_def lower_targets)
  have f: "map sfRecord (matched (fst (compare new_DataComparer
         \<lparr>users = [member_no_id, member_empty_id], payments = []\<rparr> [target55])))
       = [target55, target55]"
    by (simp add: compare_matched one_matched eval_defs member_no_id_def member_empty_id_def
        target55_def lower_targets)
  have g: "map sfRecord (matched (fst (compare new_DataComparer
         \<lparr>users = [member_no_id], payments = []\<rparr> []))) = []"
    by (simp add: compare_matched one_matched eval_defs member_no_id_def lower_targets)
  show ?thesis
    by (intro conjI a b c d e f g)
qed

section \<open>Calls on the same object\<close>

lemma compare_snd: "snd (compare c d s) = build_lookup c s"
  by (simp add: compare_def Let_def)

lemma compare_after_compare:
  "compare (snd (compare c d1 s1)) d2 s2 = compare c d2 (s1 @ s2)"
  by (simp add: compare_def Let_def build_lookup_append)

lemma build_lookup_twice: "build_lookup c (s @ s) = build_lookup c s"
proof (rule DataComparer.equality)
  show "sfByUscreenId (build_lookup c (s @ s)) = sfByUscreenId (build_lookup c s)"
    by (rule ext) (simp add: build_lookup_id find_app split: option.split)
  show "sfByEmail (build_lookup c (s @ s)) = sfByEmail (build_lookup c s)"
    by (rule ext) (simp add: build_lookup_email find_app split: option.split)
qed simp

text \<open>
  Claim C4, as amended. \<^verbatim>\<open>compare\<close> is a function of its inputs and of the maps the
  object holds when it is called. Calling it again with the same inputs gives the same
  result and leaves the same maps. The maps are created by the constructor and every call
  adds to them: a call after an earlier call on the same object gives what one call on the
  object as it was before gives on the earlier records followed by its own.
\<close>

theorem compare_depends_on_object_state:
  "compare (snd (compare c d s)) d s = compare c d s
   \<and> compare (snd (compare c d1 s1)) d2 s2 = compare c d2 (s1 @ s2)"
proof
  show "compare (snd (compare c d s)) d s = compare c d s"
    by (simp add: compare_after_compare) (simp add: compare_def build_lookup_twice)
  show "compare (snd (compare c d1 s1)) d2 s2 = compare c d2 (s1 @ s2)"
    by (rule compare_after_compare)
qed

text \<open>
  Claim C4 as stated fails: with the same users, payments and (no) records, a call on a
  new object matches nobody, and a call on an object that has seen a record for the
  member before matches the member.
\<close>

theorem earlier_call_changes_later_result:
  "map uscreenUser (matched (fst (compare new_DataComparer
       \<lparr>users = [member7], payments = []\<rparr> []))) = []
   \<and> map uscreenUser (matched (fst (compare
         (snd (compare new_DataComparer \<lparr>users = [], payments = []\<rparr> [target7]))
         \<lparr>users = [member7], payments = []\<rparr> []))) = [member7]"
proof
  show "map uscreenUser (matched (fst (compare new_DataComparer
       \<lparr>users = [member7], payments = []\<rparr> []))) = []"
    unfolding compare_matched_users
    by (simp add: eval_defs sample_defs eval_values)
  show "map uscreenUser (matched (fst (compare
         (snd (compare new_DataComparer \<lparr>users = [], payments = []\<rparr> [target7]))
         \<lparr>users = [member7], payments = []\<rparr> []))) = [member7]"
    unfolding compare_matched_users compare_snd
    by (simp add: eval_defs sample_defs eval_values)
qed

section \<open>Payments of a member\<close>

lemma num_gt_not_le: "num_gt a (Fin 0) \<Longrightarrow> \<not> num_le a (Fin 0)"
  by (cases a) simp_all

lemma not_le_gt: "a \<noteq> NaN \<Longrightarrow> \<not> num_le a (Fin 0) \<longleftrightarrow> num_gt a (Fin 0)"
  by (cases a) simp_all

lemma or_empty_falsy: "\<not> truthy a \<Longrightarrow> \<not> truthy b \<Longrightarrow> or_empty (js_or a b) = []"
  by (cases b) (simp_all add: or_empty_def js_or_def)

text \<open>
  Claim C10. When neither email column of a member holds text and neither email column of
  a payment holds text, both lower-cased emails are the empty string; if the payment's
  amount is positive the payment then belongs to the member, whatever the two user ids
  are.
\<close>

theorem empty_emails_associate:
  assumes "\<not> truthy (get u ''email'')" and "\<not> truthy (get u ''User email'')"
    and "\<not> truthy (get p ''email'')" and "\<not> truthy (get p ''Email'')"
    and "num_gt (payment_amount p) (Fin 0)"
  shows "user_email u = [] \<and> user_payment (user_email u) (user_id u) p"
proof -
  from assms(1,2) have e: "user_email u = []"
    by (simp add: user_email_def or_empty_falsy toLowerCase_def)
  from assms(3,4) have pe: "toLowerCase (or_empty (js_or (get p ''email'') (get p ''Email''))) = []"
    by (simp add: or_empty_falsy toLowerCase_def)
  from assms(5) have "\<not> num_le (payment_amount p) (Fin 0)"
    by (rule num_gt_not_le)
  with e pe show ?thesis
    by (simp add: user_payment_def Let_def)
qed

theorem empty_emails_associate_witness:
  "\<not> truthy (get member41 ''email'') \<and> \<not> truthy (get member41 ''User email'')
   \<and> \<not> truthy (get payment42 ''email'') \<and> \<not> truthy (get payment42 ''Email'')
   \<and> num_gt (payment_amount payment42) (Fin 0)
   \<and> String (js_or (js_or (get payment42 ''User ID'') (get payment42 ''user_id'')) (Str []))
        \<noteq> String (user_id member41)
   \<and> user_payment (user_email member41) (user_id member41) payment42
   \<and> findLatestPayment [payment42] (user_email member41) (user_id member41)
        = Some (latest_of payment42)"
proof -
  have h: "\<not> truthy (get member41 ''email'')" "\<not> truthy (get member41 ''User email'')"
    "\<not> truthy (get payment42 ''email'')" "\<not> truthy (get payment42 ''Email'')"
    "num_gt (payment_amount payment42) (Fin 0)"
    by (simp_all add: get_def member41_def payment42_def payment_amount_def parseFloat_or0_def
        js_or_def parseFloat_20)
  have ids: "String (js_or (js_or (get payment42 ''User ID'') (get payment42 ''user_id'')) (Str []))
        \<noteq> String (user_id member41)"
    by (simp add: get_def member41_def payment42_def js_or_def user_id_def)
  from empty_emails_associate [OF h]
  have q: "user_payment (user_email member41) (user_id member41) payment42" by (rule conjunct2)
  then have "findLatestPayment [payment42] (user_email member41) (user_id member41)
        = Some (latest_of payment42)"
    by (simp add: findLatestPayment_def)
  with h ids q show ?thesis by (intro conjI)
qed

subsection \<open>The filter and the sort\<close>

lemma set_insert_sorted: "set (insert_sorted f x ys) = insert x (set ys)"
  by (induction ys) auto

lemma set_array_sort: "set (array_sort f xs) = set xs"
  by (induction xs) (simp_all add: set_insert_sorted)

lemma array_sort_Nil: "array_sort f xs = [] \<longleftrightarrow> xs = []"
  using set_array_sort [of f xs] by (metis set_empty)

lemma findLatestPayment_None:
  "findLatestPayment ps e i = None \<longleftrightarrow> filter (user_payment e i) ps = []"
  by (simp add: findLatestPayment_def Let_def array_sort_Nil split: list.split)

lemma findLatestPayment_Some:
  assumes "findLatestPayment ps e i = Some lp"
  shows "\<exists>p\<in>set ps. lp = latest_of p \<and> user_payment e i p"
proof -
  from assms obtain p rest where
    s: "array_sort date_desc (filter (user_payment e i) ps) = p # rest" and lp: "lp = latest_of p"
    by (auto simp add: findLatestPayment_def Let_def split: if_splits list.splits)
  have "p \<in> set (array_sort date_desc (filter (user_payment e i) ps))"
    by (simp add: s)
  then have "p \<in> set ps \<and> user_payment e i p"
    by (simp add: set_array_sort)
  with lp show ?thesis by blast
qed

lemma user_payment_amount: "user_payment e i p \<Longrightarrow> \<not> num_le (payment_amount p) (Fin 0)"
  by (simp add: user_payment_def Let_def split: if_splits)

text \<open>
  The filter on amounts that are missing or parse to a number. Such a payment passes the
  filter for a member exactly when the parsed amount is greater than zero and the
  payment's lower-cased email is the member's, or its user id as text is the member's id
  as text. A payment with no amount text has amount zero and never passes. Whatever
  \<^verbatim>\<open>findLatestPayment\<close> returns is built from a payment of the list that passes the
  filter, and its amount is not \<^verbatim>\<open><= 0\<close>.
\<close>

theorem positive_amount_and_key_qualify:
  "(payment_amount p \<noteq> NaN \<longrightarrow>
      (user_payment e i p \<longleftrightarrow>
         num_gt (payment_amount p) (Fin 0)
         \<and> (toLowerCase (or_empty (js_or (get p ''email'') (get p ''Email''))) = e
            \<or> String (js_or (js_or (get p ''User ID'') (get p ''user_id'')) (Str [])) = String i)))
   \<and> (\<not> truthy (get p ''Charge Amount'') \<and> \<not> truthy (get p ''charge_amount'')
        \<and> \<not> truthy (get p ''amount'')
      \<longrightarrow> payment_amount p = Fin 0 \<and> \<not> user_payment e i p)
   \<and> (findLatestPayment ps e i = Some lp \<longrightarrow>
        \<not> num_le (amount lp) (Fin 0)
        \<and> (\<exists>q\<in>set ps. lp = latest_of q \<and> user_payment e i q))"
proof (intro conjI impI)
  assume "payment_amount p \<noteq> NaN"
  then show "user_payment e i p \<longleftrightarrow>
         num_gt (payment_amount p) (Fin 0)
         \<and> (toLowerCase (or_empty (js_or (get p ''email'') (get p ''Email''))) = e
            \<or> String (js_or (js_or (get p ''User ID'') (get p ''user_id'')) (Str [])) = String i)"
    using not_le_gt [of "payment_amount p"] by (auto simp add: user_payment_def Let_def)
next
  assume a: "\<not> truthy (get p ''Charge Amount'') \<and> \<not> truthy (get p ''charge_amount'')
        \<and> \<not> truthy (get p ''amount'')"
  then show z: "payment_amount p = Fin 0"
    by (simp add: payment_amount_def parseFloat_or0_def js_or_def)
  then show "\<not> user_payment e i p"
    by (simp add: user_payment_def Let_def)
next
  assume f: "findLatestPayment ps e i = Some lp"
  then obtain q where q: "q \<in> set ps" "lp = latest_of q" "user_payment e i q"
    using findLatestPayment_Some by blast
  then show "\<not> num_le (amount lp) (Fin 0)"
    using user_payment_amount [of e i q] by (simp add: latest_of_def)
  from q show "\<exists>q\<in>set ps. lp = latest_of q \<and> user_payment e i q"
    by blast
qed

lemma parseFloat_dollar: "parseFloat ''$20.00'' = NaN"
  by (simp add: parse_defs)

theorem positive_amount_and_key_qualify_witness:
  "payment_amount payment7 = Fin 20
   \<and> user_payment (user_email member7) (user_id member7) payment7
   \<and> \<not> user_payment (user_email member123) (user_id member123) payment7
   \<and> payment_amount payment_free = Fin 0
   \<and> \<not> user_payment (user_email member7) (user_id member7) payment_free
   \<and> findLatestPayment [payment_free, payment7] (user_email member7) (user_id member7)
        = Some (latest_of payment7)
   \<and> amount (latest_of payment7) = Fin 20"
proof -
  have am: "payment_amount payment7 = Fin 20"
    by (simp add: payment_amount_def parseFloat_or0_def js_or_def get_def payment7_def parseFloat_20)
  then have nn: "payment_amount payment7 \<noteq> NaN" by simp
  have key7: "String (js_or (js_or (get payment7 ''User ID'') (get payment7 ''user_id'')) (Str []))
               = String (user_id member7)"
    by (simp add: js_or_def get_def payment7_def member7_def user_id_def)
  have key8: "\<not> (toLowerCase (or_empty (js_or (get payment7 ''email'') (get payment7 ''Email'')))
                 = user_email member123
               \<or> String (js_or (js_or (get payment7 ''User ID'') (get payment7 ''user_id'')) (Str []))
                 = String (user_id member123))"
    by (simp add: js_or_def get_def payment7_def member123_def user_id_def user_email_def
        or_empty_def lower_empty lower_targets)
  have free: "\<not> truthy (get payment_free ''Charge Amount'') \<and> \<not> truthy (get payment_free ''charge_amount'')
        \<and> \<not> truthy (get payment_free ''amount'')"
    by (simp add: get_def payment_free_def)
  have found: "findLatestPayment [payment_free, payment7] (user_email member7) (user_id member7)
        = Some (latest_of payment7)"
    by (simp add: eval_defs sample_defs payment_free_def eval_values)
  note t7 = positive_amount_and_key_qualify
    [of payment7 "user_email member7" "user_id member7" "[payment_free, payment7]" "latest_of payment7"]
  note t8 = positive_amount_and_key_qualify
    [of payment7 "user_email member123" "user_id member123" "[]" "latest_of payment7"]
  note tf = positive_amount_and_key_qualify
    [of payment_free "user_email member7" "user_id member7" "[]" "latest_of payment7"]
  have q7: "user_payment (user_email member7) (user_id member7) payment7"
    using t7 nn am key7 by simp
  have q8: "\<not> user_payment (user_email member123) (user_id member123) payment7"
    using t8 nn key8 by blast
  have qf: "payment_amount payment_free = Fin 0
       \<and> \<not> user_payment (user_email member7) (user_id member7) payment_free"
    using tf free by blast
  have pos: "\<not> num_le (amount (latest_of payment7)) (Fin 0)"
    using t7 found by blast
  have a20: "amount (latest_of payment7) = Fin 20"
    by (simp add: latest_of_def am)
  from am q7 q8 qf found a20 show ?thesis by (intro conjI) simp_all
qed

text \<open>
  Claim C2. A payment qualifies for a member only if its parsed amount is strictly
  positive, an amount that does not parse counting as zero; no payment with an unparseable
  amount is returned as the latest qualifying payment. The code breaks this on the payment
  with amount text \<^verbatim>\<open>$20.00\<close>: \<^verbatim>\<open>parseFloat\<close> gives \<^verbatim>\<open>NaN\<close>, the test
  \<^verbatim>\<open>amount <= 0\<close> of line 119 is false, the payment passes the filter and is returned,
  with amount \<^verbatim>\<open>NaN\<close>, which is not greater than zero. (The filter of the sheet writer
  for the same payments tests \<^verbatim>\<open>amount > 0\<close> and drops this payment.)
\<close>

theorem unparseable_amount_qualifies:
  "payment_amount payment_dollar = NaN
   \<and> \<not> num_gt (payment_amount payment_dollar) (Fin 0)
   \<and> user_payment (user_email member7) (user_id member7) payment_dollar
   \<and> findLatestPayment [payment_dollar] (user_email member7) (user_id member7)
        = Some (latest_of payment_dollar)
   \<and> amount (latest_of payment_dollar) = NaN"
proof -
  have am: "payment_amount payment_dollar = NaN"
    by (simp add: payment_amount_def parseFloat_or0_def js_or_def get_def payment_dollar_def
        parseFloat_dollar)
  have q: "user_payment (user_email member7) (user_id member7) payment_dollar"
    by (simp add: user_payment_def Let_def am)
      (simp add: js_or_def get_def payment_dollar_def member7_def user_id_def)
  then have f: "findLatestPayment [payment_dollar] (user_email member7) (user_id member7)
        = Some (latest_of payment_dollar)"
    by (simp add: findLatestPayment_def)
  from am q f show ?thesis
    by (simp add: latest_of_def)
qed

subsection \<open>The latest payment\<close>

lemma date_desc_le:
  assumes "sort_date x \<noteq> Invalid_Date" and "sort_date y \<noteq> Invalid_Date"
  shows "sort_compare date_desc x y \<le> 0 \<longleftrightarrow> date_le (sort_date y) (sort_date x)"
  using assms by (cases "sort_date x"; cases "sort_date y") (simp_all add: sort_compare_def date_desc_def)

lemma date_le_total:
  assumes "a \<noteq> Invalid_Date" and "b \<noteq> Invalid_Date"
  shows "date_le a b \<or> date_le b a"
  using assms by (cases a; cases b) auto

lemma date_le_trans: "date_le a b \<Longrightarrow> date_le b c \<Longrightarrow> date_le a c"
  by (cases a; cases b; cases c) simp_all

lemma date_le_refl: "a \<noteq> Invalid_Date \<Longrightarrow> date_le a a"
  by (cases a) simp_all

lemma sorted_head_latest:
  assumes "\<forall>q\<in>set xs. sort_date q \<noteq> Invalid_Date"
    and "array_sort date_desc xs = h # rest"
  shows "\<forall>q\<in>set xs. date_le (sort_date q) (sort_date h)"
  using assms
proof (induction xs arbitrary: h rest)
  case Nil
  then show ?case by simp
next
  case (Cons x xs)
  have vx: "sort_date x \<noteq> Invalid_Date" using Cons.prems(1) by simp
  show ?case
  proof (cases "array_sort date_desc xs")
    case Nil
    then have "xs = []" by (simp add: array_sort_Nil)
    with Cons.prems vx show ?thesis by (simp add: date_le_refl)
  next
    case (Cons y ys)
    with Cons.IH [of y ys] Cons.prems(1)
    have ih: "\<forall>q\<in>set xs. date_le (sort_date q) (sort_date y)" by simp
    have "y \<in> set (array_sort date_desc xs)" using Cons by simp
    then have "y \<in> set xs" by (simp add: set_array_sort)
    with Cons.prems(1) have vy: "sort_date y \<noteq> Invalid_Date" by simp
    show ?thesis
    proof (cases "sort_compare date_desc x y \<le> 0")
      case True
      with Cons Cons.prems(2) have h: "h = x" by simp
      from True have "date_le (sort_date y) (sort_date x)"
        by (simp add: date_desc_le [OF vx vy])
      with ih have "\<forall>q\<in>set xs. date_le (sort_date q) (sort_date x)"
        using date_le_trans by blast
      with h vx show ?thesis by (simp add: date_le_refl)
    next
      case False
      with Cons Cons.prems(2) have h: "h = y" by simp
      from False have "\<not> date_le (sort_date y) (sort_date x)"
        by (simp add: date_desc_le [OF vx vy])
      with date_le_total [OF vx vy] have "date_le (sort_date x) (sort_date y)" by blast
      with h ih show ?thesis by simp
    qed
  qed
qed

lemma latest_of_chargeDate: "sort_date p = Date_or0 (chargeDate (latest_of p))"
  by (simp add: sort_date_def latest_of_def)

text \<open>
  Claim C3, as amended. When some payment passes the filter and the charge date of every
  payment that passes is missing or parses, \<^verbatim>\<open>findLatestPayment\<close> returns the object
  built from a passing payment whose date is the latest. A missing charge date counts as
  the epoch, 1970-01-01T00:00:00Z: a payment without a charge date is returned only when
  no passing payment is dated after the epoch. A payment that is the only one to pass is
  returned whatever its date. When no payment passes the result is \<^verbatim>\<open>null\<close>.
\<close>

theorem latest_payment_by_charge_date:
  "(filter (user_payment e i) ps \<noteq> []
      \<and> (\<forall>q\<in>set (filter (user_payment e i) ps). sort_date q \<noteq> Invalid_Date)
    \<longrightarrow> (\<exists>p\<in>set (filter (user_payment e i) ps).
           findLatestPayment ps e i = Some (latest_of p)
           \<and> (\<forall>q\<in>set (filter (user_payment e i) ps). date_le (sort_date q) (sort_date p))))
   \<and> (\<not> truthy (get p ''Charge Date'') \<and> \<not> truthy (get p ''charge_date'')
      \<longrightarrow> sort_date p = Time 0)
   \<and> ((\<forall>q\<in>set (filter (user_payment e i) ps). sort_date q \<noteq> Invalid_Date)
        \<and> findLatestPayment ps e i = Some lp \<and> \<not> truthy (chargeDate lp)
      \<longrightarrow> (\<forall>q\<in>set (filter (user_payment e i) ps). date_le (sort_date q) (Time 0)))
   \<and> (filter (user_payment e i) ps = [p] \<longrightarrow> findLatestPayment ps e i = Some (latest_of p))
   \<and> (filter (user_payment e i) ps = [] \<longrightarrow> findLatestPayment ps e i = None)"
proof (intro conjI impI)
  let ?c = "filter (user_payment e i) ps"
  assume a: "?c \<noteq> [] \<and> (\<forall>q\<in>set ?c. sort_date q \<noteq> Invalid_Date)"
  then obtain h rest where s: "array_sort date_desc ?c = h # rest"
    by (cases "array_sort date_desc ?c") (simp_all add: array_sort_Nil)
  then have "h \<in> set (array_sort date_desc ?c)" by simp
  then have hc: "h \<in> set ?c" by (simp only: set_array_sort)
  from a s have f: "findLatestPayment ps e i = Some (latest_of h)"
    by (simp add: findLatestPayment_def Let_def)
  from a s have "\<forall>q\<in>set ?c. date_le (sort_date q) (sort_date h)"
    using sorted_head_latest [of ?c h rest] by blast
  with hc f show "\<exists>p\<in>set ?c. findLatestPayment ps e i = Some (latest_of p)
           \<and> (\<forall>q\<in>set ?c. date_le (sort_date q) (sort_date p))"
    by blast
next
  assume "\<not> truthy (get p ''Charge Date'') \<and> \<not> truthy (get p ''charge_date'')"
  then show "sort_date p = Time 0"
    by (simp add: sort_date_def Date_or0_def js_or_def)
next
  let ?c = "filter (user_payment e i) ps"
  assume a: "(\<forall>q\<in>set ?c. sort_date q \<noteq> Invalid_Date)
        \<and> findLatestPayment ps e i = Some lp \<and> \<not> truthy (chargeDate lp)"
  then obtain h rest where s: "array_sort date_desc ?c = h # rest" and lp: "lp = latest_of h"
    by (auto simp add: findLatestPayment_def Let_def split: if_splits list.splits)
  from a lp have "sort_date h = Time 0"
    by (simp add: latest_of_chargeDate Date_or0_def)
  with a s show "\<forall>q\<in>set ?c. date_le (sort_date q) (Time 0)"
    using sorted_head_latest [of ?c h rest] by auto
next
  assume "filter (user_payment e i) ps = [p]"
  then show "findLatestPayment ps e i = Some (latest_of p)"
    by (simp add: findLatestPayment_def Let_def)
next
  assume "filter (user_payment e i) ps = []"
  then show "findLatestPayment ps e i = None"
    by (simp add: findLatestPayment_None)
qed


lemma date_samples_other: "Date_parse ''n/a'' = Invalid_Date" "Date_parse ''1969-12-31'' = Time (- 86400000)"
  by code_simp+

lemmas payment_defs = payment_undated_def payment1969_def payment_baddate_def

theorem latest_payment_by_charge_date_witness:
  "filter (user_payment (user_email member7) (user_id member7)) [payment_undated, payment7]
     = [payment_undated, payment7]
   \<and> sort_date payment_undated = Time 0 \<and> sort_date payment7 = Time 1706745600000
   \<and> findLatestPayment [payment_undated, payment7] (user_email member7) (user_id member7)
       = Some (latest_of payment7)
   \<and> findLatestPayment [payment_undated] (user_email member7) (user_id member7)
       = Some (latest_of payment_undated)
   \<and> chargeDate (latest_of payment_undated) = Undefined
   \<and> findLatestPayment [payment_free] (user_email member7) (user_id member7) = None"
proof -
  let ?e = "user_email member7" and ?i = "user_id member7"
  have c2: "filter (user_payment ?e ?i) [payment_undated, payment7] = [payment_undated, payment7]"
    by (simp add: eval_defs sample_defs payment_defs eval_values)
  have c1: "filter (user_payment ?e ?i) [payment_undated] = [payment_undated]"
    using c2 by (simp split: if_splits)
  have c0: "filter (user_payment ?e ?i) [payment_free] = []"
    by (simp add: eval_defs sample_defs payment_free_def eval_values)
  have d: "sort_date payment_undated = Time 0" "sort_date payment7 = Time 1706745600000"
    by (simp_all add: eval_defs sample_defs payment_defs eval_values)
  have nd: "\<not> truthy (get payment_undated ''Charge Date'') \<and> \<not> truthy (get payment_undated ''charge_date'')"
    by (simp add: get_def payment_defs)
  have cd: "chargeDate (latest_of payment_undated) = Undefined"
    by (simp add: latest_of_def get_def js_or_def payment_defs)
  note t2 = latest_payment_by_charge_date [of ?e ?i "[payment_undated, payment7]" payment_undated
      "latest_of payment_undated"]
  note t1 = latest_payment_by_charge_date [of ?e ?i "[payment_undated]" payment_undated
      "latest_of payment_undated"]
  note t0 = latest_payment_by_charge_date [of ?e ?i "[payment_free]" payment_undated
      "latest_of payment_undated"]
  have pre: "filter (user_payment ?e ?i) [payment_undated, payment7] \<noteq> []
      \<and> (\<forall>q\<in>set (filter (user_payment ?e ?i) [payment_undated, payment7]).
            sort_date q \<noteq> Invalid_Date)"
    unfolding c2 using d by simp
  from t2 [THEN conjunct1, THEN mp, OF pre] obtain p where
    "p \<in> set (filter (user_payment ?e ?i) [payment_undated, payment7])"
    "findLatestPayment [payment_undated, payment7] ?e ?i = Some (latest_of p)"
    "\<forall>q\<in>set (filter (user_payment ?e ?i) [payment_undated, payment7]).
       date_le (sort_date q) (sort_date p)"
    by blast
  then have p: "p \<in> {payment_undated, payment7}"
    "findLatestPayment [payment_undated, payment7] ?e ?i = Some (latest_of p)"
    "date_le (sort_date payment7) (sort_date p)"
    unfolding c2 by simp_all
  from p(1,3) d have "p = payment7" by auto
  with p(2) have f2: "findLatestPayment [payment_undated, payment7] ?e ?i = Some (latest_of payment7)"
    by simp
  from t1 c1 have f1: "findLatestPayment [payment_undated] ?e ?i = Some (latest_of payment_undated)"
    by blast
  from t0 c0 have f0: "findLatestPayment [payment_free] ?e ?i = None"
    by blast
  from c2 d f2 f1 cd f0 show ?thesis by (intro conjI)
qed

text \<open>
  Claim C3 as stated fails twice. A missing date is the epoch, not the earliest instant:
  the payment without a charge date is returned ahead of the payment dated 1969-12-31.
  A date text that does not parse makes the sort callback return \<^verbatim>\<open>NaN\<close>, which the
  sort reads as \<open>0\<close>: of two payments the first stays first, and the payment with charge
  date \<^verbatim>\<open>n/a\<close> is returned ahead of the payment dated 2024-02-01.
\<close>

theorem undated_or_unparseable_payment_chosen:
  "user_payment (user_email member7) (user_id member7) payment_undated
   \<and> user_payment (user_email member7) (user_id member7) payment1969
   \<and> chargeDate (latest_of payment_undated) = Undefined
   \<and> new_Date (chargeDate (latest_of payment1969)) = Time (- 86400000)
   \<and> findLatestPayment [payment_undated, payment1969] (user_email member7) (user_id member7)
       = Some (latest_of payment_undated)
   \<and> user_payment (user_email member7) (user_id member7) payment_baddate
   \<and> user_payment (user_email member7) (user_id member7) payment7
   \<and> new_Date (chargeDate (latest_of payment_baddate)) = Invalid_Date
   \<and> new_Date (chargeDate (latest_of payment7)) = Time 1706745600000
   \<and> findLatestPayment [payment_baddate, payment7] (user_email member7) (user_id member7)
       = Some (latest_of payment_baddate)
   \<and> latest_of payment_undated \<noteq> latest_of payment1969
   \<and> latest_of payment_baddate \<noteq> latest_of payment7"
  by (simp add: eval_defs sample_defs payment_defs eval_values date_samples_other)

section \<open>The update decision\<close>

lemma is_newer_spec:
  assumes "parses pv" and "parses tv"
  shows "is_newer (date_or_null pv) (date_or_null tv) \<longleftrightarrow> later (spec_instant pv) (spec_instant tv)"
  using assms
  by (cases "new_Date pv"; cases "new_Date tv")
     (auto simp add: is_newer_def date_or_null_def spec_instant_def parses_def split: if_splits)

lemma needs_update_spec:
  assumes "parses (uscreenLastPaymentDate sf)"
    and "\<forall>lp. findLatestPayment ps (user_email u) (user_id u) = Some lp \<longrightarrow> parses (chargeDate lp)"
  shows "needs_update ps u sf \<longleftrightarrow>
           spec_needs_update (findLatestPayment ps (user_email u) (user_id u)) sf"
  using assms by (simp add: needs_update_def spec_needs_update_def is_newer_spec split: option.split)

lemma needs_update_equal_dates:
  assumes "findLatestPayment ps (user_email u) (user_id u) = Some lp"
    and "truthy (chargeDate lp)" and "truthy (uscreenLastPaymentDate sf)"
    and "new_Date (chargeDate lp) = new_Date (uscreenLastPaymentDate sf)"
  shows "\<not> needs_update ps u sf"
  using assms
  by (cases "new_Date (uscreenLastPaymentDate sf)")
     (simp_all add: needs_update_def is_newer_def date_or_null_def)

text \<open>
  The update decision on dates that parse. Take a matched member, the record it matched,
  and suppose the record's last payment date and the charge date of the member's latest
  qualifying payment (if there is one) are each absent or parseable. Then the member is in
  \<^verbatim>\<open>needsUpdate\<close> exactly when a latest qualifying payment exists and its charge date is
  strictly later than the record's date, an absent date on either side being the earliest
  possible instant. Whatever the texts are, when both are present and give the same
  \<^verbatim>\<open>Date\<close> the member is not in \<^verbatim>\<open>needsUpdate\<close>.
\<close>

theorem needs_update_iff_newer_payment:
  assumes "u \<in> set (users d)"
    and "match_sf (build_lookup c s) (user_id u) (user_email u) = Some sf"
  shows "(parses (uscreenLastPaymentDate sf)
          \<and> (\<forall>lp. findLatestPayment (payments d) (user_email u) (user_id u) = Some lp
                \<longrightarrow> parses (chargeDate lp))
          \<longrightarrow> (u \<in> set (map uscreenUser (needsUpdate (fst (compare c d s)))) \<longleftrightarrow>
                 spec_needs_update (findLatestPayment (payments d) (user_email u) (user_id u)) sf))
       \<and> (\<forall>lp. findLatestPayment (payments d) (user_email u) (user_id u) = Some lp
              \<and> truthy (chargeDate lp) \<and> truthy (uscreenLastPaymentDate sf)
              \<and> new_Date (chargeDate lp) = new_Date (uscreenLastPaymentDate sf)
            \<longrightarrow> u \<notin> set (map uscreenUser (needsUpdate (fst (compare c d s)))))"
proof -
  have mem: "u \<in> set (map uscreenUser (needsUpdate (fst (compare c d s)))) \<longleftrightarrow>
               needs_update (payments d) u sf"
    unfolding compare_needsUpdate_users using assms by simp
  show ?thesis
    unfolding mem using needs_update_spec needs_update_equal_dates by blast
qed


theorem needs_update_iff_newer_payment_witness:
  "member7 \<in> set (users \<lparr>users = [member7], payments = [payment_undated, payment7]\<rparr>)
   \<and> match_sf (build_lookup new_DataComparer [target7]) (user_id member7) (user_email member7)
       = Some target7
   \<and> parses (uscreenLastPaymentDate target7)
   \<and> findLatestPayment [payment_undated, payment7] (user_email member7) (user_id member7)
       = Some (latest_of payment7)
   \<and> parses (chargeDate (latest_of payment7))
   \<and> spec_needs_update (Some (latest_of payment7)) target7
   \<and> member7 \<in> set (map uscreenUser (needsUpdate (fst (compare new_DataComparer
         \<lparr>users = [member7], payments = [payment_undated, payment7]\<rparr> [target7]))))
   \<and> findLatestPayment [payment_jan] (user_email member7) (user_id member7)
       = Some (latest_of payment_jan)
   \<and> new_Date (chargeDate (latest_of payment_jan)) = new_Date (uscreenLastPaymentDate target7)
   \<and> member7 \<notin> set (map uscreenUser (needsUpdate (fst (compare new_DataComparer
         \<lparr>users = [member7], payments = [payment_jan]\<rparr> [target7]))))"
proof -
  let ?e = "user_email member7" and ?i = "user_id member7"
  let ?d = "\<lparr>users = [member7], payments = [payment_undated, payment7]\<rparr>"
  let ?d' = "\<lparr>users = [member7], payments = [payment_jan]\<rparr>"
  have u: "member7 \<in> set (users ?d)" "member7 \<in> set (users ?d')" by simp_all
  have m: "match_sf (build_lookup new_DataComparer [target7]) ?i ?e = Some target7"
    by (simp add: eval_defs sample_defs eval_values)
  have pt: "parses (uscreenLastPaymentDate target7)"
    by (simp add: parses_def sample_defs eval_values)
  have f: "findLatestPayment [payment_undated, payment7] ?e ?i = Some (latest_of payment7)"
    by (simp add: eval_defs sample_defs payment_defs eval_values)
  have pp: "parses (chargeDate (latest_of payment7))"
    by (simp add: parses_def latest_of_def get_def js_or_def sample_defs eval_values)
  have sp: "spec_needs_update (Some (latest_of payment7)) target7"
    by (simp add: spec_needs_update_def spec_instant_def latest_of_def get_def js_or_def
        sample_defs eval_values)
  have f': "findLatestPayment [payment_jan] ?e ?i = Some (latest_of payment_jan)"
    by (simp add: eval_defs sample_defs payment_jan_def eval_values)
  have eq: "truthy (chargeDate (latest_of payment_jan))" "truthy (uscreenLastPaymentDate target7)"
    "new_Date (chargeDate (latest_of payment_jan)) = new_Date (uscreenLastPaymentDate target7)"
    by (simp_all add: latest_of_def get_def js_or_def sample_defs payment_jan_def)
  have a: "member7 \<in> set (map uscreenUser (needsUpdate (fst (compare new_DataComparer ?d [target7]))))"
    using needs_update_iff_newer_payment [OF u(1), of new_DataComparer "[target7]" target7]
      m pt f pp sp by simp
  have b: "member7 \<notin> set (map uscreenUser (needsUpdate (fst (compare new_DataComparer ?d' [target7]))))"
    using needs_update_iff_newer_payment [OF u(2), of new_DataComparer "[target7]" target7]
      m f' eq by simp
  from u(1) m pt f pp sp a f' eq(3) b show ?thesis by (intro conjI)
qed

text \<open>
  Claim C1. A matched member is in \<^verbatim>\<open>needsUpdate\<close> only if its latest qualifying
  payment has a parsed charge date strictly later than the record's last payment date, an
  absent date on the record being the earliest possible instant. The code breaks this on
  a payment whose charge date is the text \<^verbatim>\<open>n/a\<close>, for a record with no last payment
  date: the text gives an Invalid Date, which is truthy, \<^verbatim>\<open>!sfLastPaymentDate\<close> holds, and
  the member is pushed to \<^verbatim>\<open>needsUpdate\<close> with an Invalid Date as its new payment date,
  although no parsed charge date is later than anything.
\<close>

theorem unparseable_payment_date_pushed:
  "findLatestPayment [payment_baddate] (user_email member7) (user_id member7)
     = Some (latest_of payment_baddate)
   \<and> chargeDate (latest_of payment_baddate) = Str ''n/a''
   \<and> new_Date (Str ''n/a'') = Invalid_Date
   \<and> uscreenLastPaymentDate target7_undated = Null
   \<and> \<not> spec_needs_update (Some (latest_of payment_baddate)) target7_undated
   \<and> map (\<lambda>e. (uscreenUser e, sfLastPaymentDate e, uscreenLastPaymentDate' e))
         (needsUpdate (fst (compare new_DataComparer
            \<lparr>users = [member7], payments = [payment_baddate]\<rparr> [target7_undated])))
       = [(member7, None, Some Invalid_Date)]"
  unfolding compare_needsUpdate
  by (simp add: one_needsUpdate eval_defs sample_defs payment_defs eval_values date_samples_other
      spec_needs_update_def spec_instant_def target7_undated_def)

end
